theory Spec2Isabelle
  imports Main
begin
section \<open>Star schema builder of the electric product data pipeline\<close>

text \<open>
  A shallow embedding of \<^verbatim>\<open>src/models/star_schema_model.py\<close> and of the loader of
  \<^verbatim>\<open>src/dashboard/app.py\<close>. The tables are pandas data frames; the model keeps them
  column by column, as pandas does, and makes every exception of the source a value.
\<close>

subsection \<open>Errors\<close>

text \<open>
  The exceptions the builder can raise. \<open>KeyError c\<close> names the first column that is
  missing. \<open>Unmodelled\<close> is not an exception of the source: it marks an input on which
  pandas has a behaviour this model does not describe (a date written in another format
  than \<^verbatim>\<open>YYYY-MM-DD\<close>, a number passed to \<^verbatim>\<open>to_datetime\<close>).
\<close>

datatype error =
    KeyError string
  | ValueError
  | TypeError
  | OverflowError
  | AttributeError
  | FileNotFoundError string
  | Unmodelled

definition and_then :: "error + 'a \<Rightarrow> ('a \<Rightarrow> error + 'b) \<Rightarrow> error + 'b" where
  "and_then r f = (case r of Inl e \<Rightarrow> Inl e | Inr x \<Rightarrow> f x)"

fun traverse :: "('a \<Rightarrow> error + 'b) \<Rightarrow> 'a list \<Rightarrow> error + 'b list" where
  "traverse f [] = Inr []"
| "traverse f (x # xs) =
     (case f x of
        Inl e \<Rightarrow> Inl e
      | Inr y \<Rightarrow> (case traverse f xs of Inl e \<Rightarrow> Inl e | Inr ys \<Rightarrow> Inr (y # ys)))"

subsection \<open>Calendar dates\<close>

record date =
  year :: int
  month :: int
  day :: int

definition mk_date :: "int \<Rightarrow> int \<Rightarrow> int \<Rightarrow> date" where
  "mk_date y m d = \<lparr>year = y, month = m, day = d\<rparr>"

definition is_leap :: "int \<Rightarrow> bool" where
  "is_leap y \<longleftrightarrow> y mod 4 = 0 \<and> (y mod 100 \<noteq> 0 \<or> y mod 400 = 0)"

definition days_in_month :: "int \<Rightarrow> int \<Rightarrow> int" where
  "days_in_month y m =
     (if m = 2 then (if is_leap y then 29 else 28)
      else if m = 4 \<or> m = 6 \<or> m = 9 \<or> m = 11 then 30 else 31)"

definition valid_date :: "date \<Rightarrow> bool" where
  "valid_date d \<longleftrightarrow>
     1 \<le> month d \<and> month d \<le> 12 \<and> 1 \<le> day d \<and> day d \<le> days_in_month (year d) (month d)"

definition date_le :: "date \<Rightarrow> date \<Rightarrow> bool" where
  "date_le a b \<longleftrightarrow>
     year a < year b \<or>
     (year a = year b \<and> (month a < month b \<or> (month a = month b \<and> day a \<le> day b)))"

definition date_less :: "date \<Rightarrow> date \<Rightarrow> bool" where
  "date_less a b \<longleftrightarrow>
     year a < year b \<or>
     (year a = year b \<and> (month a < month b \<or> (month a = month b \<and> day a < day b)))"

text \<open>The calendar day after \<open>d\<close> (one step of the daily frequency \<^verbatim>\<open>freq='D'\<close>).\<close>

definition next_day :: "date \<Rightarrow> date" where
  "next_day d =
     (if day d < days_in_month (year d) (month d) then mk_date (year d) (month d) (day d + 1)
      else if month d < 12 then mk_date (year d) (month d + 1) 1
      else mk_date (year d + 1) 1 1)"

text \<open>
  \<^verbatim>\<open>pd.date_range(start=start_date, end=end_date, freq='D')\<close>: every day from the start
  to the end, both included; empty when the end precedes the start.
\<close>

function date_range :: "date \<Rightarrow> date \<Rightarrow> date list" where
  "date_range s e = (if date_le s e then s # date_range (next_day s) e else [])"
  by pat_completeness auto

termination
  apply (relation "measures [\<lambda>(s, e). nat (year e + 1 - year s),
                              \<lambda>(s, e). nat (13 - month s),
                              \<lambda>(s, e). nat (32 - day s)]")
   apply simp
  apply (auto simp: next_day_def mk_date_def date_le_def days_in_month_def split: if_splits)
  done

declare date_range.simps [simp del]

text \<open>Python's proleptic Gregorian ordinal and the day of the week (Monday is 0).\<close>

definition days_before_year :: "int \<Rightarrow> int" where
  "days_before_year y = (y - 1) * 365 + (y - 1) div 4 - (y - 1) div 100 + (y - 1) div 400"

definition days_before_month :: "int \<Rightarrow> int \<Rightarrow> int" where
  "days_before_month y m =
     [0, 31, 59, 90, 120, 151, 181, 212, 243, 273, 304, 334] ! nat (m - 1)
       + (if m > 2 \<and> is_leap y then 1 else 0)"

definition toordinal :: "date \<Rightarrow> int" where
  "toordinal d = days_before_year (year d) + days_before_month (year d) (month d) + day d"

definition dayofweek :: "date \<Rightarrow> int" where
  "dayofweek d = (toordinal d + 6) mod 7"

definition quarter :: "date \<Rightarrow> int" where
  "quarter d = (month d - 1) div 3 + 1"

definition day_name :: "date \<Rightarrow> string" where
  "day_name d =
     [''Monday'', ''Tuesday'', ''Wednesday'', ''Thursday'', ''Friday'', ''Saturday'', ''Sunday'']
       ! nat (dayofweek d)"

definition month_name :: "date \<Rightarrow> string" where
  "month_name d =
     [''January'', ''February'', ''March'', ''April'', ''May'', ''June'', ''July'',
      ''August'', ''September'', ''October'', ''November'', ''December'']
       ! nat (month d - 1)"

subsection \<open>Decimal strings\<close>

definition digit_char :: "nat \<Rightarrow> char" where
  "digit_char n = ''0123456789'' ! n"

definition digit_val :: "char \<Rightarrow> nat option" where
  "digit_val c =
     (let n = (of_char c :: nat) in if 48 \<le> n \<and> n \<le> 57 then Some (n - 48) else None)"

text \<open>\<^verbatim>\<open>str(n)\<close> for an integer.\<close>

fun str_of_nat :: "nat \<Rightarrow> string" where
  "str_of_nat n =
     (if n < 10 then [digit_char n] else str_of_nat (n div 10) @ [digit_char (n mod 10)])"

declare str_of_nat.simps [simp del]

definition str_of_int :: "int \<Rightarrow> string" where
  "str_of_int i = (if i < 0 then CHR ''-'' # str_of_nat (nat (- i)) else str_of_nat (nat i))"

text \<open>\<^verbatim>\<open>s.zfill(width)\<close>: zeros on the left, after a leading sign.\<close>

definition zfill :: "nat \<Rightarrow> string \<Rightarrow> string" where
  "zfill width s =
     (if width \<le> length s then s
      else (case s of
              c # r \<Rightarrow>
                if c = CHR ''+'' \<or> c = CHR ''-''
                then c # replicate (width - length s) CHR ''0'' @ r
                else replicate (width - length s) CHR ''0'' @ s
            | [] \<Rightarrow> replicate width CHR ''0''))"

text \<open>
  \<^verbatim>\<open>int(s)\<close> on a string, in base 10: white space around, an optional sign, then
  digits, with single underscores allowed between digits.
\<close>

definition is_space :: "char \<Rightarrow> bool" where
  "is_space c \<longleftrightarrow>
     c = CHR '' '' \<or> c = CHR 0x09 \<or> c = CHR 0x0A \<or> c = CHR 0x0B \<or> c = CHR 0x0C \<or> c = CHR 0x0D"

definition strip :: "string \<Rightarrow> string" where
  "strip s = rev (dropWhile is_space (rev (dropWhile is_space s)))"

fun parse_digits :: "bool \<Rightarrow> nat \<Rightarrow> string \<Rightarrow> nat option" where
  "parse_digits prev acc [] = (if prev then Some acc else None)"
| "parse_digits prev acc (c # cs) =
     (case digit_val c of
        Some v \<Rightarrow> parse_digits True (acc * 10 + v) cs
      | None \<Rightarrow> if c = CHR ''_'' \<and> prev then parse_digits False acc cs else None)"

definition py_int :: "string \<Rightarrow> int option" where
  "py_int s =
     (case strip s of
        [] \<Rightarrow> None
      | c # r \<Rightarrow>
          if c = CHR ''-'' then map_option (\<lambda>n. - int n) (parse_digits False 0 r)
          else if c = CHR ''+'' then map_option int (parse_digits False 0 r)
          else map_option int (parse_digits False 0 (c # r)))"

text \<open>A run of decimal digits, as the fields of a date are written.\<close>

fun digits_val :: "nat \<Rightarrow> string \<Rightarrow> nat option" where
  "digits_val acc [] = Some acc"
| "digits_val acc (c # cs) =
     (case digit_val c of None \<Rightarrow> None | Some v \<Rightarrow> digits_val (acc * 10 + v) cs)"

subsection \<open>Cells and data frames\<close>

text \<open>
  A cell of a data frame. A float is carried by its printed form (what \<^verbatim>\<open>str\<close> and
  \<^verbatim>\<open>to_csv\<close> write): the builder does no arithmetic on floats. \<open>NaN\<close> is the missing
  value (NaN, NaT, None). A surrogate key looked up for a column that also holds missing
  values is stored by pandas as the float of the same value (2.0 for 2); the model keeps
  the integer.
\<close>

datatype cell =
    IntC int
  | FloatC string
  | StrC string
  | BoolC bool
  | DateC date
  | NaN

text \<open>
  A data frame: the length of its index and its columns, in column order. The files the
  builder reads come from \<^verbatim>\<open>read_csv\<close>, which gives every column a distinct name and
  the length of the index.
\<close>

record dataframe =
  nrows :: nat
  cols :: "(string \<times> cell list) list"

definition columns :: "dataframe \<Rightarrow> string list" where
  "columns df = map fst (cols df)"

definition wf_df :: "dataframe \<Rightarrow> bool" where
  "wf_df df \<longleftrightarrow> distinct (columns df) \<and> list_all (\<lambda>(c, vs). length vs = nrows df) (cols df)"

text \<open>\<^verbatim>\<open>df[c]\<close>.\<close>

definition get_col :: "dataframe \<Rightarrow> string \<Rightarrow> error + cell list" where
  "get_col df c = (case map_of (cols df) c of None \<Rightarrow> Inl (KeyError c) | Some vs \<Rightarrow> Inr vs)"

text \<open>\<^verbatim>\<open>df[[c1, ..., cn]]\<close>: the named columns, in the order asked for.\<close>

definition select :: "dataframe \<Rightarrow> string list \<Rightarrow> error + dataframe" where
  "select df cs =
     and_then (traverse (\<lambda>c. and_then (get_col df c) (\<lambda>vs. Inr (c, vs))) cs)
       (\<lambda>sel. Inr \<lparr>nrows = nrows df, cols = sel\<rparr>)"

text \<open>
  \<^verbatim>\<open>df[c] = values\<close>: an existing column is replaced where it stands, a new one is added
  as the last column. Values of another length than the index are refused.
\<close>

fun upsert :: "string \<Rightarrow> cell list \<Rightarrow> (string \<times> cell list) list \<Rightarrow> (string \<times> cell list) list" where
  "upsert c vs [] = [(c, vs)]"
| "upsert c vs ((c', vs') # rest) =
     (if c' = c then (c, vs) # rest else (c', vs') # upsert c vs rest)"

definition set_col :: "dataframe \<Rightarrow> string \<Rightarrow> cell list \<Rightarrow> error + dataframe" where
  "set_col df c vs =
     (if length vs = nrows df then Inr (df\<lparr>cols := upsert c vs (cols df)\<rparr>) else Inl ValueError)"

text \<open>\<^verbatim>\<open>range(1, len(df) + 1)\<close> as a column of integers.\<close>

definition key_range :: "dataframe \<Rightarrow> cell list" where
  "key_range df = map IntC [1 .. int (nrows df)]"

text \<open>
  \<^verbatim>\<open>df[c] = range(1, len(df) + 1)\<close> followed by
  \<^verbatim>\<open>df[[c] + [col for col in df.columns if col != c]]\<close>: the surrogate key, put first.
\<close>

definition add_surrogate_key :: "string \<Rightarrow> dataframe \<Rightarrow> error + dataframe" where
  "add_surrogate_key k df =
     and_then (set_col df k (key_range df))
       (\<lambda>df'. select df' (k # filter (\<lambda>col. col \<noteq> k) (columns df')))"

text \<open>The row at position \<open>i\<close>: each column's name with its value there.\<close>

definition row :: "dataframe \<Rightarrow> nat \<Rightarrow> (string \<times> cell) list" where
  "row df i = map (\<lambda>(c, vs). (c, vs ! i)) (cols df)"

subsection \<open>Entity dimensions\<close>

definition product_columns :: "string list" where
  "product_columns =
     [''product_id'', ''product_name'', ''category'', ''subcategory'',
      ''energy_rating'', ''price'', ''manufacturing_cost'', ''warranty_years'',
      ''weight_kg'', ''profit_margin'', ''launch_date'']"

definition customer_columns :: "string list" where
  "customer_columns =
     [''customer_id'', ''customer_name'', ''country'', ''segment'',
      ''acquisition_date'', ''lifetime_value'', ''acquisition_year'', ''acquisition_month'']"

definition store_columns :: "string list" where
  "store_columns =
     [''store_id'', ''store_name'', ''country'', ''store_type'',
      ''opening_date'', ''size_sqm'', ''opening_year'']"

definition create_product_dimension :: "dataframe \<Rightarrow> error + dataframe" where
  "create_product_dimension products_df =
     and_then (select products_df product_columns) (add_surrogate_key ''product_key'')"

definition create_customer_dimension :: "dataframe \<Rightarrow> error + dataframe" where
  "create_customer_dimension customers_df =
     and_then (select customers_df customer_columns) (add_surrogate_key ''customer_key'')"

definition create_store_dimension :: "dataframe \<Rightarrow> error + dataframe" where
  "create_store_dimension stores_df =
     and_then (select stores_df store_columns) (add_surrogate_key ''store_key'')"

subsection \<open>Dates in columns\<close>

text \<open>
  \<^verbatim>\<open>pd.to_datetime\<close> on one value. The cleaning stage writes dates as
  \<^verbatim>\<open>YYYY-MM-DD\<close>; a string of that shape is a date when it names a calendar day that a
  nanosecond timestamp can hold (1677-09-22 to 2262-04-11), and is refused with a
  \<open>ValueError\<close> otherwise (pandas's \<^verbatim>\<open>OutOfBoundsDatetime\<close> is a \<^verbatim>\<open>ValueError\<close>).
  A missing value stays missing (NaT).
\<close>

definition timestamp_min :: date where
  "timestamp_min = mk_date 1677 9 22"

definition timestamp_max :: date where
  "timestamp_max = mk_date 2262 4 11"

definition parse_iso_date :: "string \<Rightarrow> error + date" where
  "parse_iso_date s =
     (if length s = 10 \<and> s ! 4 = CHR ''-'' \<and> s ! 7 = CHR ''-'' then
        (case (digits_val 0 (take 4 s), digits_val 0 (take 2 (drop 5 s)), digits_val 0 (drop 8 s)) of
           (Some y, Some m, Some d) \<Rightarrow>
             (let dt = mk_date (int y) (int m) (int d)
              in if valid_date dt \<and> date_le timestamp_min dt \<and> date_le dt timestamp_max
                 then Inr dt else Inl ValueError)
         | _ \<Rightarrow> Inl Unmodelled)
      else Inl Unmodelled)"

definition to_datetime_cell :: "cell \<Rightarrow> error + cell" where
  "to_datetime_cell c =
     (case c of
        StrC s \<Rightarrow> and_then (parse_iso_date s) (\<lambda>d. Inr (DateC d))
      | DateC d \<Rightarrow> Inr (DateC d)
      | NaN \<Rightarrow> Inr NaN
      | BoolC b \<Rightarrow> Inl TypeError
      | _ \<Rightarrow> Inl Unmodelled)"

definition to_datetime :: "cell list \<Rightarrow> error + cell list" where
  "to_datetime vs = traverse to_datetime_cell vs"

text \<open>\<^verbatim>\<open>strftime('%Y%m%d')\<close>.\<close>

definition strftime_Ymd :: "date \<Rightarrow> string" where
  "strftime_Ymd d =
     zfill 4 (str_of_int (year d)) @ zfill 2 (str_of_int (month d)) @ zfill 2 (str_of_int (day d))"

text \<open>
  \<^verbatim>\<open>series.dt.strftime('%Y%m%d')\<close>: the accessor exists on a column of dates only; a
  missing date gives a missing string.
\<close>

definition dt_strftime_cell :: "cell \<Rightarrow> error + cell" where
  "dt_strftime_cell c =
     (case c of
        DateC d \<Rightarrow> Inr (StrC (strftime_Ymd d))
      | NaN \<Rightarrow> Inr NaN
      | _ \<Rightarrow> Inl AttributeError)"

definition dt_strftime :: "cell list \<Rightarrow> error + cell list" where
  "dt_strftime vs = traverse dt_strftime_cell vs"

text \<open>
  \<^verbatim>\<open>series.astype(int)\<close> on a column of strings: each is read by \<^verbatim>\<open>int\<close> and must fit
  64 bits; a missing value cannot be converted.
\<close>

definition astype_int_cell :: "cell \<Rightarrow> error + cell" where
  "astype_int_cell c =
     (case c of
        StrC s \<Rightarrow>
          (case py_int s of
             None \<Rightarrow> Inl ValueError
           | Some i \<Rightarrow>
               if - (2 ^ 63) \<le> i \<and> i < 2 ^ 63 then Inr (IntC i) else Inl OverflowError)
      | IntC i \<Rightarrow> Inr (IntC i)
      | NaN \<Rightarrow> Inl ValueError
      | _ \<Rightarrow> Inl Unmodelled)"

definition astype_int :: "cell list \<Rightarrow> error + cell list" where
  "astype_int vs = traverse astype_int_cell vs"

text \<open>\<^verbatim>\<open>series.astype(str)\<close>.\<close>

definition isoformat :: "date \<Rightarrow> string" where
  "isoformat d =
     zfill 4 (str_of_int (year d)) @ ''-'' @ zfill 2 (str_of_int (month d)) @ ''-''
       @ zfill 2 (str_of_int (day d))"

definition astype_str_cell :: "cell \<Rightarrow> string" where
  "astype_str_cell c =
     (case c of
        IntC i \<Rightarrow> str_of_int i
      | FloatC r \<Rightarrow> r
      | StrC s \<Rightarrow> s
      | BoolC b \<Rightarrow> (if b then ''True'' else ''False'')
      | DateC d \<Rightarrow> isoformat d
      | NaN \<Rightarrow> ''nan'')"

definition astype_str :: "cell list \<Rightarrow> string list" where
  "astype_str vs = map astype_str_cell vs"

subsection \<open>Date dimension\<close>

definition start_date :: date where
  "start_date = mk_date 2022 1 1"

definition end_date :: date where
  "end_date = mk_date 2023 12 31"

definition date_key_column :: "cell list \<Rightarrow> error + cell list" where
  "date_key_column dates = and_then (dt_strftime dates) astype_int"

definition create_date_dimension :: "error + dataframe" where
  "create_date_dimension =
     (let dr = date_range start_date end_date;
          date_dim = \<lparr>nrows = length dr,
            cols = [(''date_id'', map IntC [1 .. int (length dr)]),
                    (''date'', map DateC dr),
                    (''day'', map (\<lambda>d. IntC (day d)) dr),
                    (''month'', map (\<lambda>d. IntC (month d)) dr),
                    (''quarter'', map (\<lambda>d. IntC (quarter d)) dr),
                    (''year'', map (\<lambda>d. IntC (year d)) dr),
                    (''day_of_week'', map (\<lambda>d. IntC (dayofweek d)) dr),
                    (''day_name'', map (\<lambda>d. StrC (day_name d)) dr),
                    (''month_name'', map (\<lambda>d. StrC (month_name d)) dr),
                    (''is_weekend'', map (\<lambda>d. BoolC (dayofweek d = 5 \<or> dayofweek d = 6)) dr)]\<rparr>
      in and_then (get_col date_dim ''date'') (\<lambda>dates.
         and_then (date_key_column dates) (\<lambda>date_key.
         set_col date_dim ''date_key'' date_key)))"

subsection \<open>Fact tables\<close>

text \<open>
  \<^verbatim>\<open>dict(zip(dim[id], dim[key]))\<close>: the pairs are stored in row order, a later pair
  replacing an earlier one with the same natural key.
\<close>

definition dict_zip :: "cell list \<Rightarrow> cell list \<Rightarrow> (cell \<rightharpoonup> cell)" where
  "dict_zip ks vs = fold (\<lambda>(k, v) m. m(k \<mapsto> v)) (zip ks vs) Map.empty"

definition key_map :: "dataframe \<Rightarrow> string \<Rightarrow> string \<Rightarrow> error + (cell \<rightharpoonup> cell)" where
  "key_map dim id_col key_col =
     and_then (get_col dim id_col) (\<lambda>ids.
     and_then (get_col dim key_col) (\<lambda>keys.
     Inr (dict_zip ids keys)))"

text \<open>\<^verbatim>\<open>series.map(d)\<close> with a dictionary: a value that is no key of it maps to NaN.\<close>

definition series_map :: "(cell \<rightharpoonup> cell) \<Rightarrow> cell list \<Rightarrow> cell list" where
  "series_map d vs = map (\<lambda>v. case d v of None \<Rightarrow> NaN | Some k \<Rightarrow> k) vs"

text \<open>\<^verbatim>\<open>df[key_col] = df[id_col].map(d)\<close>.\<close>

definition map_key :: "string \<Rightarrow> (cell \<rightharpoonup> cell) \<Rightarrow> string \<Rightarrow> dataframe \<Rightarrow> error + dataframe" where
  "map_key id_col d key_col df =
     and_then (get_col df id_col) (\<lambda>ids. set_col df key_col (series_map d ids))"

definition sales_fact_columns :: "string list" where
  "sales_fact_columns =
     [''transaction_id'', ''date_key'', ''product_key'', ''customer_key'', ''store_key'',
      ''quantity'', ''unit_price'', ''discount'', ''final_price'', ''total_amount'',
      ''payment_method'']"

text \<open>The date dimension is a parameter of the source function, which never reads it.\<close>

definition create_sales_fact ::
  "dataframe \<Rightarrow> dataframe \<Rightarrow> dataframe \<Rightarrow> dataframe \<Rightarrow> dataframe \<Rightarrow> error + dataframe" where
  "create_sales_fact sales_df product_dim customer_dim store_dim date_dim =
     and_then (get_col sales_df ''transaction_date'') (\<lambda>td.
     and_then (to_datetime td) (\<lambda>dates.
     and_then (set_col sales_df ''transaction_date'' dates) (\<lambda>sales_fact.
     and_then (get_col sales_fact ''transaction_date'') (\<lambda>dates.
     and_then (date_key_column dates) (\<lambda>date_key.
     and_then (set_col sales_fact ''date_key'' date_key) (\<lambda>sales_fact.
     and_then (key_map product_dim ''product_id'' ''product_key'') (\<lambda>product_key_map.
     and_then (key_map customer_dim ''customer_id'' ''customer_key'') (\<lambda>customer_key_map.
     and_then (key_map store_dim ''store_id'' ''store_key'') (\<lambda>store_key_map.
     and_then (map_key ''product_id'' product_key_map ''product_key'' sales_fact) (\<lambda>sales_fact.
     and_then (map_key ''customer_id'' customer_key_map ''customer_key'' sales_fact) (\<lambda>sales_fact.
     and_then (map_key ''store_id'' store_key_map ''store_key'' sales_fact) (\<lambda>sales_fact.
     and_then (select sales_fact sales_fact_columns)
       (add_surrogate_key ''sales_key'')))))))))))))"

definition performance_fact_columns :: "string list" where
  "performance_fact_columns =
     [''date_key'', ''product_key'', ''energy_consumption_kwh'', ''failure_rate'',
      ''customer_satisfaction'', ''return_rate'', ''warranty_claims'']"

text \<open>
  \<^verbatim>\<open>year.astype(str) + month.astype(str).str.zfill(2) + '01'\<close>, row by row.
\<close>

definition year_month_key :: "cell \<Rightarrow> cell \<Rightarrow> string" where
  "year_month_key y m = (astype_str_cell y @ zfill 2 (astype_str_cell m)) @ ''01''"

definition create_performance_fact :: "dataframe \<Rightarrow> dataframe \<Rightarrow> dataframe \<Rightarrow> error + dataframe" where
  "create_performance_fact performance_df product_dim date_dim =
     and_then (get_col performance_df ''year'') (\<lambda>years.
     and_then (get_col performance_df ''month'') (\<lambda>months.
     and_then (astype_int (map (\<lambda>(y, m). StrC (year_month_key y m)) (zip years months))) (\<lambda>date_key.
     and_then (set_col performance_df ''date_key'' date_key) (\<lambda>performance_fact.
     and_then (key_map product_dim ''product_id'' ''product_key'') (\<lambda>product_key_map.
     and_then (map_key ''product_id'' product_key_map ''product_key'' performance_fact) (\<lambda>performance_fact.
     and_then (select performance_fact performance_fact_columns)
       (add_surrogate_key ''performance_key'')))))))"

subsection \<open>Files\<close>

text \<open>
  A CSV file is kept as what it holds once split into fields: the header line and the
  records, each a list of cells typed the way \<^verbatim>\<open>read_csv\<close> types them. The quoting of
  fields and the re-typing of a string that reads as a number or as a missing value are
  below this model. Directories are not modelled: a file system maps a path to a file.
\<close>

record csv_file =
  header :: "string list"
  records :: "cell list list"

type_synonym filesystem = "string \<rightharpoonup> csv_file"

text \<open>A CSV file has no type for dates: a date is written as text.\<close>

definition csv_cell :: "cell \<Rightarrow> cell" where
  "csv_cell c = (case c of DateC d \<Rightarrow> StrC (isoformat d) | _ \<Rightarrow> c)"

text \<open>
  \<^verbatim>\<open>df.to_csv(path, index=index)\<close>: with \<^verbatim>\<open>index=True\<close> (the default of pandas) the
  row labels 0, 1, ... are written as a first column with an empty name; the builder
  always passes \<^verbatim>\<open>index=False\<close>. A file of the same path is overwritten.
\<close>

definition csv_of :: "dataframe \<Rightarrow> bool \<Rightarrow> csv_file" where
  "csv_of df index =
     (if index
      then \<lparr>header = [] # columns df,
            records = map (\<lambda>i. IntC (int i) # map (\<lambda>(c, v). csv_cell v) (row df i)) [0 ..< nrows df]\<rparr>
      else \<lparr>header = columns df,
            records = map (\<lambda>i. map (\<lambda>(c, v). csv_cell v) (row df i)) [0 ..< nrows df]\<rparr>)"

definition to_csv :: "dataframe \<Rightarrow> string \<Rightarrow> bool \<Rightarrow> filesystem \<Rightarrow> filesystem" where
  "to_csv df path index fs = fs(path \<mapsto> csv_of df index)"

text \<open>
  \<^verbatim>\<open>pd.read_csv(path)\<close>: the header gives the column names, every record one row.
  Modelled for a header of distinct, non-empty names and records of the header's length,
  which is what \<^verbatim>\<open>to_csv\<close> writes for a data frame with distinct, non-empty column
  names; pandas renames the columns of other headers and pads or refuses other records.
\<close>

definition frame_of :: "csv_file \<Rightarrow> error + dataframe" where
  "frame_of f =
     (if header f \<noteq> [] \<and> distinct (header f) \<and> [] \<notin> set (header f)
         \<and> list_all (\<lambda>r. length r = length (header f)) (records f)
      then Inr \<lparr>nrows = length (records f),
                cols = map (\<lambda>j. (header f ! j, map (\<lambda>r. r ! j) (records f)))
                         [0 ..< length (header f)]\<rparr>
      else Inl Unmodelled)"

definition read_csv :: "string \<Rightarrow> filesystem \<Rightarrow> error + dataframe" where
  "read_csv path fs =
     (case fs path of None \<Rightarrow> Inl (FileNotFoundError path) | Some f \<Rightarrow> frame_of f)"

type_synonym star_schema =
  "dataframe \<times> dataframe \<times> dataframe \<times> dataframe \<times> dataframe \<times> dataframe"

definition load_processed_data ::
  "string \<Rightarrow> filesystem \<Rightarrow> error + (dataframe \<times> dataframe \<times> dataframe \<times> dataframe \<times> dataframe)" where
  "load_processed_data data_dir fs =
     and_then (read_csv (data_dir @ ''/products_processed.csv'') fs) (\<lambda>products_df.
     and_then (read_csv (data_dir @ ''/customers_processed.csv'') fs) (\<lambda>customers_df.
     and_then (read_csv (data_dir @ ''/stores_processed.csv'') fs) (\<lambda>stores_df.
     and_then (read_csv (data_dir @ ''/sales_processed.csv'') fs) (\<lambda>sales_df.
     and_then (read_csv (data_dir @ ''/performance_processed.csv'') fs) (\<lambda>performance_df.
     Inr (products_df, customers_df, stores_df, sales_df, performance_df))))))"

definition save_star_schema :: "star_schema \<Rightarrow> string \<Rightarrow> filesystem \<Rightarrow> filesystem" where
  "save_star_schema tables output_dir fs =
     (case tables of (date_dim, product_dim, customer_dim, store_dim, sales_fact, performance_fact) \<Rightarrow>
        to_csv performance_fact (output_dir @ ''/fact_performance.csv'') False
       (to_csv sales_fact (output_dir @ ''/fact_sales.csv'') False
       (to_csv store_dim (output_dir @ ''/dim_store.csv'') False
       (to_csv customer_dim (output_dir @ ''/dim_customer.csv'') False
       (to_csv product_dim (output_dir @ ''/dim_product.csv'') False
       (to_csv date_dim (output_dir @ ''/dim_date.csv'') False fs))))))"

text \<open>The dimension and fact tables of \<^verbatim>\<open>main\<close>, built in its order.\<close>

definition build_star_schema ::
  "dataframe \<times> dataframe \<times> dataframe \<times> dataframe \<times> dataframe \<Rightarrow> error + star_schema" where
  "build_star_schema inputs =
     (case inputs of (products_df, customers_df, stores_df, sales_df, performance_df) \<Rightarrow>
        and_then create_date_dimension (\<lambda>date_dim.
        and_then (create_product_dimension products_df) (\<lambda>product_dim.
        and_then (create_customer_dimension customers_df) (\<lambda>customer_dim.
        and_then (create_store_dimension stores_df) (\<lambda>store_dim.
        and_then (create_sales_fact sales_df product_dim customer_dim store_dim date_dim) (\<lambda>sales_fact.
        and_then (create_performance_fact performance_df product_dim date_dim) (\<lambda>performance_fact.
        Inr (date_dim, product_dim, customer_dim, store_dim, sales_fact, performance_fact))))))))"

definition input_dir :: string where
  "input_dir = ''src/data/processed_data''"

definition output_dir :: string where
  "output_dir = ''src/models/star_schema''"

definition main :: "filesystem \<Rightarrow> error + filesystem" where
  "main fs =
     and_then (load_processed_data input_dir fs) (\<lambda>inputs.
     and_then (build_star_schema inputs) (\<lambda>tables.
     Inr (save_star_schema tables output_dir fs)))"

text \<open>The loader of the dashboard (\<^verbatim>\<open>src/dashboard/app.py\<close>).\<close>

definition DATA_DIR :: string where
  "DATA_DIR = ''src/models/star_schema''"

definition load_star_schema_data :: "string \<Rightarrow> filesystem \<Rightarrow> error + star_schema" where
  "load_star_schema_data data_dir fs =
     and_then (read_csv (data_dir @ ''/dim_date.csv'') fs) (\<lambda>dim_date.
     and_then (read_csv (data_dir @ ''/dim_product.csv'') fs) (\<lambda>dim_product.
     and_then (read_csv (data_dir @ ''/dim_customer.csv'') fs) (\<lambda>dim_customer.
     and_then (read_csv (data_dir @ ''/dim_store.csv'') fs) (\<lambda>dim_store.
     and_then (read_csv (data_dir @ ''/fact_sales.csv'') fs) (\<lambda>fact_sales.
     and_then (read_csv (data_dir @ ''/fact_performance.csv'') fs) (\<lambda>fact_performance.
     Inr (dim_date, dim_product, dim_customer, dim_store, fact_sales, fact_performance)))))))"

subsection \<open>Helpers of the statements and example tables\<close>

text \<open>The column \<open>c\<close> of a data frame, empty when there is none.\<close>

definition the_col :: "dataframe \<Rightarrow> string \<Rightarrow> cell list" where
  "the_col df c = (case map_of (cols df) c of Some vs \<Rightarrow> vs | None \<Rightarrow> [])"

text \<open>A non-empty string of decimal digits.\<close>

definition is_digits :: "string \<Rightarrow> bool" where
  "is_digits s \<longleftrightarrow> s \<noteq> [] \<and> list_all (\<lambda>c. digit_val c \<noteq> None) s"

text \<open>The date as the number \<^verbatim>\<open>YYYYMMDD\<close>.\<close>

definition date_key_of :: "date \<Rightarrow> int" where
  "date_key_of d = year d * 10000 + month d * 100 + day d"

text \<open>
  Three products, customers and stores; of their attributes only the natural key is
  filled in.
\<close>

definition example_products :: dataframe where
  "example_products =
     \<lparr>nrows = 3,
      cols = (''product_id'', [StrC ''P1'', StrC ''P2'', StrC ''P3''])
             # map (\<lambda>c. (c, [NaN, NaN, NaN])) (tl product_columns)\<rparr>"

definition example_customers :: dataframe where
  "example_customers =
     \<lparr>nrows = 2,
      cols = (''customer_id'', [StrC ''C1'', StrC ''C2''])
             # map (\<lambda>c. (c, [NaN, NaN])) (tl customer_columns)\<rparr>"

definition example_stores :: dataframe where
  "example_stores =
     \<lparr>nrows = 2,
      cols = (''store_id'', [StrC ''S1'', StrC ''S2''])
             # map (\<lambda>c. (c, [NaN, NaN])) (tl store_columns)\<rparr>"

text \<open>Storing one pair in a dictionary.\<close>

definition put :: "'a \<times> 'b \<Rightarrow> ('a \<rightharpoonup> 'b) \<Rightarrow> ('a \<rightharpoonup> 'b)" where
  "put p m = m(fst p \<mapsto> snd p)"

text \<open>The number in an integer cell.\<close>

definition the_int :: "cell \<Rightarrow> int" where
  "the_int c = (case c of IntC i \<Rightarrow> i | _ \<Rightarrow> 0)"

text \<open>An integer year of four digits; an integer month of the calendar.\<close>

definition four_digit_year :: "cell \<Rightarrow> bool" where
  "four_digit_year c = (case c of IntC y \<Rightarrow> 1000 \<le> y \<and> y \<le> 9999 | _ \<Rightarrow> False)"

definition calendar_month :: "cell \<Rightarrow> bool" where
  "calendar_month c = (case c of IntC m \<Rightarrow> 1 \<le> m \<and> m \<le> 12 | _ \<Rightarrow> False)"

text \<open>The product dimension built from the three example products.\<close>

definition example_product_dim :: dataframe where
  "example_product_dim =
     \<lparr>nrows = 3,
      cols = (''product_key'', [IntC 1, IntC 2, IntC 3])
             # (''product_id'', [StrC ''P1'', StrC ''P2'', StrC ''P3''])
             # map (\<lambda>c. (c, [NaN, NaN, NaN])) (tl product_columns)\<rparr>"

text \<open>Two monthly performance rows, the second of a product that is in no dimension.\<close>

definition example_performance :: dataframe where
  "example_performance =
     \<lparr>nrows = 2,
      cols = [(''product_id'', [StrC ''P2'', StrC ''P9'']),
              (''year_month'', [StrC ''2022-03'', StrC ''2023-12'']),
              (''energy_consumption_kwh'', [FloatC ''120.5'', FloatC ''80.25'']),
              (''failure_rate'', [FloatC ''0.01'', FloatC ''0.02'']),
              (''customer_satisfaction'', [FloatC ''4.5'', FloatC ''3.9'']),
              (''return_rate'', [FloatC ''0.05'', FloatC ''0.0'']),
              (''warranty_claims'', [IntC 3, IntC 0]),
              (''year'', [IntC 2022, IntC 2023]),
              (''month'', [IntC 3, IntC 12])]\<rparr>"

text \<open>
  A cell that \<^verbatim>\<open>to_datetime\<close> turns into a date a timestamp can hold, and that date
  (a text \<^verbatim>\<open>YYYY-MM-DD\<close> of a calendar day, or a date already).
\<close>

definition dated :: "cell \<Rightarrow> bool" where
  "dated c =
     (case to_datetime_cell c of
        Inr (DateC d) \<Rightarrow> valid_date d \<and> date_le timestamp_min d \<and> date_le d timestamp_max
      | _ \<Rightarrow> False)"

definition the_date :: "cell \<Rightarrow> date" where
  "the_date c = (case to_datetime_cell c of Inr (DateC d) \<Rightarrow> d | _ \<Rightarrow> mk_date 1 1 1)"

text \<open>The columns of the sales table that the sales fact build reads.\<close>

definition sales_input_columns :: "string list" where
  "sales_input_columns =
     [''transaction_date'', ''product_id'', ''customer_id'', ''store_id'', ''transaction_id'',
      ''quantity'', ''unit_price'', ''discount'', ''final_price'', ''total_amount'',
      ''payment_method'']"

text \<open>The columns of the sales table that the sales fact carries over unchanged.\<close>

definition sales_measure_columns :: "string list" where
  "sales_measure_columns =
     [''transaction_id'', ''quantity'', ''unit_price'', ''discount'', ''final_price'',
      ''total_amount'', ''payment_method'']"

text \<open>
  Inputs on which the sales fact build meets no error: a well-formed sales table with the
  columns it reads and a date in every row, and dimensions with a natural key and a
  surrogate key column. Nothing is asked of the natural keys.
\<close>

definition sales_inputs_ok :: "dataframe \<Rightarrow> dataframe \<Rightarrow> dataframe \<Rightarrow> dataframe \<Rightarrow> bool" where
  "sales_inputs_ok sales_df product_dim customer_dim store_dim \<longleftrightarrow>
     wf_df sales_df
     \<and> set sales_input_columns \<subseteq> set (columns sales_df)
     \<and> list_all dated (the_col sales_df ''transaction_date'')
     \<and> set [''product_id'', ''product_key''] \<subseteq> set (columns product_dim)
     \<and> set [''customer_id'', ''customer_key''] \<subseteq> set (columns customer_dim)
     \<and> set [''store_id'', ''store_key''] \<subseteq> set (columns store_dim)"

text \<open>A column of the table a build returns, or the build's error.\<close>

definition column_of :: "error + dataframe \<Rightarrow> string \<Rightarrow> error + cell list" where
  "column_of r c = and_then r (\<lambda>df. get_col df c)"

text \<open>The customer and store dimensions built from the example customers and stores.\<close>

definition example_customer_dim :: dataframe where
  "example_customer_dim =
     \<lparr>nrows = 2,
      cols = (''customer_key'', [IntC 1, IntC 2])
             # (''customer_id'', [StrC ''C1'', StrC ''C2''])
             # map (\<lambda>c. (c, [NaN, NaN])) (tl customer_columns)\<rparr>"

definition example_store_dim :: dataframe where
  "example_store_dim =
     \<lparr>nrows = 2,
      cols = (''store_key'', [IntC 1, IntC 2])
             # (''store_id'', [StrC ''S1'', StrC ''S2''])
             # map (\<lambda>c. (c, [NaN, NaN])) (tl store_columns)\<rparr>"

text \<open>
  Two sales rows: the first refers to product P2, customer C1 and store S1 on 2022-03-15;
  the second refers to a product, a customer and a store that are in no dimension, on
  2024-01-01, the day after the last day of the date dimension.
\<close>

definition example_sales :: dataframe where
  "example_sales =
     \<lparr>nrows = 2,
      cols = [(''transaction_id'', [StrC ''T000001'', StrC ''T000002'']),
              (''product_id'', [StrC ''P2'', StrC ''P9'']),
              (''customer_id'', [StrC ''C1'', StrC ''C9'']),
              (''store_id'', [StrC ''S1'', StrC ''S9'']),
              (''transaction_date'', [StrC ''2022-03-15'', StrC ''2024-01-01'']),
              (''quantity'', [IntC 2, IntC 1]),
              (''unit_price'', [FloatC ''10.0'', FloatC ''99.5'']),
              (''discount'', [FloatC ''0.0'', FloatC ''0.1'']),
              (''final_price'', [FloatC ''10.0'', FloatC ''89.55'']),
              (''total_amount'', [FloatC ''20.0'', FloatC ''89.55'']),
              (''payment_method'', [StrC ''Credit Card'', StrC ''PayPal''])]\<rparr>"


text \<open>
  Three products of which the first and the last have the natural key P2, and the
  product dimension built from them.
\<close>

definition example_duplicate_products :: dataframe where
  "example_duplicate_products =
     \<lparr>nrows = 3,
      cols = (''product_id'', [StrC ''P2'', StrC ''P1'', StrC ''P2''])
             # map (\<lambda>c. (c, [NaN, NaN, NaN])) (tl product_columns)\<rparr>"

definition example_duplicate_dim :: dataframe where
  "example_duplicate_dim =
     \<lparr>nrows = 3,
      cols = (''product_key'', [IntC 1, IntC 2, IntC 3])
             # (''product_id'', [StrC ''P2'', StrC ''P1'', StrC ''P2''])
             # map (\<lambda>c. (c, [NaN, NaN, NaN])) (tl product_columns)\<rparr>"

text \<open>
  Row \<open>j\<close> of a natural key column holds \<open>k\<close>, and no other row does; row \<open>j\<close> holds
  \<open>k\<close>, and no later row does.
\<close>

definition occurs_once :: "cell \<Rightarrow> cell list \<Rightarrow> nat \<Rightarrow> bool" where
  "occurs_once k ids j \<longleftrightarrow>
     j < length ids \<and> ids ! j = k \<and> k \<notin> set (take j ids) \<and> k \<notin> set (drop (Suc j) ids)"

definition last_occurrence :: "cell \<Rightarrow> cell list \<Rightarrow> nat \<Rightarrow> bool" where
  "last_occurrence k ids j \<longleftrightarrow> j < length ids \<and> ids ! j = k \<and> k \<notin> set (drop (Suc j) ids)"

text \<open>The empty table, for the date dimension where the build does not read it.\<close>

definition no_table :: dataframe where
  "no_table = \<lparr>nrows = 0, cols = []\<rparr>"

text \<open>The date dimension as a table; a day of the range the date dimension covers.\<close>

definition date_dimension :: dataframe where
  "date_dimension = (case create_date_dimension of Inr dd \<Rightarrow> dd | Inl e \<Rightarrow> no_table)"

definition in_calendar :: "date \<Rightarrow> bool" where
  "in_calendar d \<longleftrightarrow> date_le start_date d \<and> date_le d end_date"

text \<open>
  The files the builder reads and the files it writes; what a run leaves in the files it
  writes, or its error.
\<close>

definition input_paths :: "string list" where
  "input_paths =
     map (\<lambda>n. input_dir @ n)
       [''/products_processed.csv'', ''/customers_processed.csv'', ''/stores_processed.csv'',
        ''/sales_processed.csv'', ''/performance_processed.csv'']"

definition output_paths :: "string \<Rightarrow> string list" where
  "output_paths dir =
     map (\<lambda>n. dir @ n)
       [''/dim_date.csv'', ''/dim_product.csv'', ''/dim_customer.csv'', ''/dim_store.csv'',
        ''/fact_sales.csv'', ''/fact_performance.csv'']"

definition artifacts :: "error + filesystem \<Rightarrow> error + csv_file option list" where
  "artifacts r = (case r of Inl e \<Rightarrow> Inl e | Inr fs \<Rightarrow> Inr (map fs (output_paths output_dir)))"

text \<open>The row count and the column names of a table, and of the six tables of a schema.\<close>

definition shape :: "dataframe \<Rightarrow> nat \<times> string list" where
  "shape df = (nrows df, columns df)"

definition shapes :: "star_schema \<Rightarrow> (nat \<times> string list) list" where
  "shapes tables =
     (case tables of (date_dim, product_dim, customer_dim, store_dim, sales_fact, performance_fact) \<Rightarrow>
        [shape date_dim, shape product_dim, shape customer_dim, shape store_dim,
         shape sales_fact, shape performance_fact])"

text \<open>A file system that holds the five example tables as processed data, and nothing else.\<close>

definition example_fs :: filesystem where
  "example_fs =
     [input_dir @ ''/products_processed.csv'' \<mapsto> csv_of example_products False,
      input_dir @ ''/customers_processed.csv'' \<mapsto> csv_of example_customers False,
      input_dir @ ''/stores_processed.csv'' \<mapsto> csv_of example_stores False,
      input_dir @ ''/sales_processed.csv'' \<mapsto> csv_of example_sales False,
      input_dir @ ''/performance_processed.csv'' \<mapsto> csv_of example_performance False]"

section \<open>Properties\<close>

subsection \<open>Sequencing and columns\<close>

lemma and_then_Inr [simp]: "and_then (Inr x) f = f x"
  by (simp add: and_then_def)

lemma and_then_Inl [simp]: "and_then (Inl e) f = Inl e"
  by (simp add: and_then_def)

lemma and_then_eq_Inr: "and_then r f = Inr y \<longleftrightarrow> (\<exists>x. r = Inr x \<and> f x = Inr y)"
  by (cases r) simp_all

lemma traverse_Inr_map:
  "(\<And>x. x \<in> set xs \<Longrightarrow> f x = Inr (g x)) \<Longrightarrow> traverse f xs = Inr (map g xs)"
  by (induction xs) simp_all

lemma traverse_length: "traverse f xs = Inr ys \<Longrightarrow> length ys = length xs"
  by (induction xs arbitrary: ys) (auto split: sum.splits)

lemma traverse_nth:
  "traverse f xs = Inr ys \<Longrightarrow> i < length xs \<Longrightarrow> f (xs ! i) = Inr (ys ! i)"
proof (induction xs arbitrary: ys i)
  case Nil
  then show ?case by simp
next
  case (Cons x xs)
  then show ?case by (cases i) (auto split: sum.splits)
qed

lemma get_col_Inr_iff: "get_col df c = Inr vs \<longleftrightarrow> map_of (cols df) c = Some vs"
  by (simp add: get_col_def split: option.splits)

lemma get_col_the_col: "c \<in> set (columns df) \<Longrightarrow> get_col df c = Inr (the_col df c)"
  unfolding columns_def get_col_def the_col_def
  by (cases "map_of (cols df) c") (auto simp: map_of_eq_None_iff)

lemma get_col_Inr_the_col: "get_col df c = Inr vs \<Longrightarrow> the_col df c = vs"
  by (simp add: get_col_Inr_iff the_col_def)

lemma get_col_Inr_columns: "get_col df c = Inr vs \<Longrightarrow> c \<in> set (columns df)"
  unfolding get_col_Inr_iff columns_def by (metis map_of_SomeD fst_conv image_eqI set_map)

lemma select_present:
  assumes "set cs \<subseteq> set (columns df)"
  shows "select df cs = Inr \<lparr>nrows = nrows df, cols = map (\<lambda>c. (c, the_col df c)) cs\<rparr>"
proof -
  have "traverse (\<lambda>c. and_then (get_col df c) (\<lambda>vs. Inr (c, vs))) cs
          = Inr (map (\<lambda>c. (c, the_col df c)) cs)"
  proof (rule traverse_Inr_map)
    fix c assume "c \<in> set cs"
    with assms have "get_col df c = Inr (the_col df c)"
      using get_col_the_col by blast
    then show "and_then (get_col df c) (\<lambda>vs. Inr (c, vs)) = Inr (c, the_col df c)"
      by simp
  qed
  then show ?thesis by (simp add: select_def)
qed

lemma map_of_selected: "c \<in> set cs \<Longrightarrow> map_of (map (\<lambda>c. (c, g c)) cs) c = Some (g c)"
  by (induction cs) auto

lemma the_col_selected:
  "c \<in> set cs \<Longrightarrow> the_col \<lparr>nrows = n, cols = map (\<lambda>c. (c, g c)) cs\<rparr> c = g c"
  by (simp add: the_col_def map_of_selected)

lemma map_of_upsert: "map_of (upsert c vs l) = (map_of l)(c \<mapsto> vs)"
  by (induction l) (auto simp: fun_eq_iff)

lemma fst_upsert:
  "map fst (upsert c vs l) = (if c \<in> fst ` set l then map fst l else map fst l @ [c])"
  by (induction l) (force+)

lemma length_key_range: "length (key_range df) = nrows df"
  by (simp add: key_range_def)

lemma add_surrogate_key_eq:
  "add_surrogate_key k df =
     Inr \<lparr>nrows = nrows df,
          cols = (k, key_range df)
                 # map (\<lambda>c. (c, the_col df c)) (filter (\<lambda>c. c \<noteq> k) (columns df))\<rparr>"
proof -
  let ?df' = "df\<lparr>cols := upsert k (key_range df) (cols df)\<rparr>"
  have s: "set_col df k (key_range df) = Inr ?df'"
    by (simp add: set_col_def length_key_range)
  have c: "columns ?df' = (if k \<in> set (columns df) then columns df else columns df @ [k])"
    by (simp add: columns_def fst_upsert)
  have f: "filter (\<lambda>c. c \<noteq> k) (columns ?df') = filter (\<lambda>c. c \<noteq> k) (columns df)"
    by (simp add: c)
  have sub: "set (k # filter (\<lambda>c. c \<noteq> k) (columns ?df')) \<subseteq> set (columns ?df')"
    by (auto simp: c)
  have t: "the_col ?df' k = key_range df"
    by (simp add: the_col_def map_of_upsert)
  have t': "c \<noteq> k \<Longrightarrow> the_col ?df' c = the_col df c" for c
    by (simp add: the_col_def map_of_upsert)
  have m: "map (\<lambda>c. (c, the_col ?df' c)) (filter (\<lambda>c. c \<noteq> k) (columns df))
      = map (\<lambda>c. (c, the_col df c)) (filter (\<lambda>c. c \<noteq> k) (columns df))"
    by (rule map_cong) (auto simp: t')
  have "select ?df' (k # filter (\<lambda>c. c \<noteq> k) (columns ?df')) =
      Inr \<lparr>nrows = nrows ?df',
          cols = map (\<lambda>c. (c, the_col ?df' c)) (k # filter (\<lambda>c. c \<noteq> k) (columns ?df'))\<rparr>"
    by (rule select_present [OF sub])
  also have "\<dots> = Inr \<lparr>nrows = nrows df,
          cols = (k, key_range df)
                 # map (\<lambda>c. (c, the_col df c)) (filter (\<lambda>c. c \<noteq> k) (columns df))\<rparr>"
    unfolding f by (simp add: t m)
  finally show ?thesis
    by (simp add: add_surrogate_key_def s)
qed

subsection \<open>Entity dimensions\<close>

lemma entity_dimension:
  assumes "set cs \<subseteq> set (columns df)" and "k \<notin> set cs"
  shows "and_then (select df cs) (add_surrogate_key k) =
           Inr \<lparr>nrows = nrows df,
                cols = (k, map IntC [1 .. int (nrows df)]) # map (\<lambda>c. (c, the_col df c)) cs\<rparr>"
proof -
  let ?sel = "\<lparr>nrows = nrows df, cols = map (\<lambda>c. (c, the_col df c)) cs\<rparr>"
  have c: "columns ?sel = cs"
    by (simp add: columns_def comp_def)
  have f: "filter (\<lambda>c. c \<noteq> k) cs = cs"
    using assms(2) by (induction cs) auto
  have "map (\<lambda>c. (c, the_col ?sel c)) cs = map (\<lambda>c. (c, the_col df c)) cs"
    by (rule map_cong) (simp_all add: the_col_selected)
  then show ?thesis
    by (simp add: select_present [OF assms(1)] add_surrogate_key_eq c f key_range_def)
qed

lemma keyed_frame:
  assumes "set cs \<subseteq> set (columns df)" and "k \<notin> set cs"
    and "dim = \<lparr>nrows = nrows df, cols = (k, keys) # map (\<lambda>c. (c, the_col df c)) cs\<rparr>"
  shows "nrows dim = nrows df" and "columns dim = k # cs" and "get_col dim k = Inr keys"
    and "\<forall>c\<in>set cs. get_col dim c = get_col df c"
proof -
  show "nrows dim = nrows df" "columns dim = k # cs" "get_col dim k = Inr keys"
    by (simp_all add: assms(3) columns_def comp_def get_col_def)
  show "\<forall>c\<in>set cs. get_col dim c = get_col df c"
  proof
    fix c assume c: "c \<in> set cs"
    then have "c \<noteq> k" using assms(2) by auto
    then have "get_col dim c = Inr (the_col df c)"
      using c by (simp add: assms(3) get_col_def map_of_selected)
    then show "get_col dim c = get_col df c"
      using c assms(1) by (simp add: get_col_the_col subsetD)
  qed
qed

lemma product_key_fresh: "''product_key'' \<notin> set product_columns"
  by (simp add: product_columns_def)

lemma customer_key_fresh: "''customer_key'' \<notin> set customer_columns"
  by (simp add: customer_columns_def)

lemma store_key_fresh: "''store_key'' \<notin> set store_columns"
  by (simp add: store_columns_def)

lemma create_product_dimension_eq:
  "set product_columns \<subseteq> set (columns df) \<Longrightarrow>
     create_product_dimension df =
       Inr \<lparr>nrows = nrows df,
            cols = (''product_key'', map IntC [1 .. int (nrows df)])
                   # map (\<lambda>c. (c, the_col df c)) product_columns\<rparr>"
  unfolding create_product_dimension_def by (rule entity_dimension [OF _ product_key_fresh])

lemma create_customer_dimension_eq:
  "set customer_columns \<subseteq> set (columns df) \<Longrightarrow>
     create_customer_dimension df =
       Inr \<lparr>nrows = nrows df,
            cols = (''customer_key'', map IntC [1 .. int (nrows df)])
                   # map (\<lambda>c. (c, the_col df c)) customer_columns\<rparr>"
  unfolding create_customer_dimension_def by (rule entity_dimension [OF _ customer_key_fresh])

lemma create_store_dimension_eq:
  "set store_columns \<subseteq> set (columns df) \<Longrightarrow>
     create_store_dimension df =
       Inr \<lparr>nrows = nrows df,
            cols = (''store_key'', map IntC [1 .. int (nrows df)])
                   # map (\<lambda>c. (c, the_col df c)) store_columns\<rparr>"
  unfolding create_store_dimension_def by (rule entity_dimension [OF _ store_key_fresh])

lemma example_products_columns: "set product_columns \<subseteq> set (columns example_products)"
  by (simp add: example_products_def product_columns_def columns_def)

lemma example_customers_columns: "set customer_columns \<subseteq> set (columns example_customers)"
  by (simp add: example_customers_def customer_columns_def columns_def)

lemma example_stores_columns: "set store_columns \<subseteq> set (columns example_stores)"
  by (simp add: example_stores_def store_columns_def columns_def)

lemma upto_1_2: "[1 .. 2::int] = [1, 2]"
  by code_simp

lemma upto_1_3: "[1 .. 3::int] = [1, 2, 3]"
  by code_simp

lemma wf_get_col_length: "wf_df df \<Longrightarrow> get_col df c = Inr vs \<Longrightarrow> length vs = nrows df"
  unfolding wf_df_def get_col_Inr_iff list_all_iff by (auto dest: map_of_SomeD)

subsection \<open>Decimal strings\<close>

lemma below_ten: "n < 10 \<Longrightarrow> n \<in> {0, 1, 2, 3, 4, 5, 6, 7, 8, 9::nat}"
  by auto

lemma digit_val_digit_char: "n < 10 \<Longrightarrow> digit_val (digit_char n) = Some n"
  using below_ten [of n] by (auto simp: digit_val_def digit_char_def)

lemma digit_not_space: "digit_val c \<noteq> None \<Longrightarrow> \<not> is_space c"
  by (auto simp: digit_val_def is_space_def Let_def split: if_splits)

lemma digit_not_sign: "digit_val c \<noteq> None \<Longrightarrow> c \<noteq> CHR ''-'' \<and> c \<noteq> CHR ''+''"
  by (auto simp: digit_val_def Let_def split: if_splits)

lemma str_of_nat_small: "n < 10 \<Longrightarrow> str_of_nat n = [digit_char n]"
  by (subst str_of_nat.simps) simp

lemma str_of_nat_large:
  "\<not> n < 10 \<Longrightarrow> str_of_nat n = str_of_nat (n div 10) @ [digit_char (n mod 10)]"
  by (subst str_of_nat.simps) simp

lemma is_digits_single: "n < 10 \<Longrightarrow> is_digits [digit_char n]"
  by (simp add: is_digits_def digit_val_digit_char)

lemma is_digits_append: "is_digits s \<Longrightarrow> is_digits t \<Longrightarrow> is_digits (s @ t)"
  by (simp add: is_digits_def)

lemma is_digits_str_of_nat: "is_digits (str_of_nat n)"
proof (induction n rule: str_of_nat.induct)
  case (1 n)
  show ?case
  proof (cases "n < 10")
    case True
    then show ?thesis by (simp add: str_of_nat_small is_digits_single)
  next
    case False
    have "is_digits [digit_char (n mod 10)]" by (rule is_digits_single) simp
    with False 1 show ?thesis
      by (simp add: str_of_nat_large is_digits_append)
  qed
qed

lemma digits_val_append:
  "digits_val acc (s @ t) = (case digits_val acc s of None \<Rightarrow> None | Some v \<Rightarrow> digits_val v t)"
  by (induction s arbitrary: acc) (auto split: option.splits)

lemma digits_val_str_of_nat:
  "digits_val acc (str_of_nat n) = Some (acc * 10 ^ length (str_of_nat n) + n)"
proof (induction n arbitrary: acc rule: str_of_nat.induct)
  case (1 n)
  show ?case
  proof (cases "n < 10")
    case True
    then show ?thesis
      by (simp add: str_of_nat_small digit_val_digit_char)
  next
    case False
    have m: "n mod 10 < 10" by simp
    have l: "length (str_of_nat n) = Suc (length (str_of_nat (n div 10)))"
      using False by (simp add: str_of_nat_large)
    have "digits_val acc (str_of_nat n)
        = Some ((acc * 10 ^ length (str_of_nat (n div 10)) + n div 10) * 10 + n mod 10)"
      using False by (simp add: str_of_nat_large digits_val_append 1 digit_val_digit_char [OF m])
    also have "(acc * 10 ^ length (str_of_nat (n div 10)) + n div 10) * 10 + n mod 10
        = acc * 10 ^ length (str_of_nat n) + n"
      unfolding l by (simp add: algebra_simps)
    finally show ?thesis .
  qed
qed

lemma parse_digits_is_digits:
  "is_digits s \<Longrightarrow> parse_digits p acc s = digits_val acc s"
proof (induction s arbitrary: p acc)
  case Nil
  then show ?case by (simp add: is_digits_def)
next
  case (Cons c s)
  then obtain v where v: "digit_val c = Some v"
    by (auto simp: is_digits_def)
  show ?case
  proof (cases s)
    case Nil
    then show ?thesis using v by simp
  next
    case (Cons c' s')
    then have "is_digits s" using Cons.prems by (simp add: is_digits_def)
    then show ?thesis using v Cons.IH by simp
  qed
qed

lemma dropWhile_keep: "xs \<noteq> [] \<Longrightarrow> \<not> P (hd xs) \<Longrightarrow> dropWhile P xs = xs"
  by (cases xs) simp_all

lemma strip_is_digits: "is_digits s \<Longrightarrow> strip s = s"
proof -
  assume d: "is_digits s"
  then have ne: "s \<noteq> []" by (simp add: is_digits_def)
  then have "hd s \<in> set s" "last s \<in> set s" by simp_all
  with d have "digit_val (hd s) \<noteq> None" "digit_val (last s) \<noteq> None"
    by (simp_all add: is_digits_def list_all_iff)
  then have h: "\<not> is_space (hd s)" and l: "\<not> is_space (last s)"
    by (simp_all add: digit_not_space)
  have 1: "dropWhile is_space s = s"
    using ne h by (rule dropWhile_keep)
  have "rev s \<noteq> []" "\<not> is_space (hd (rev s))"
    using ne l by (simp_all add: hd_rev)
  then have 2: "dropWhile is_space (rev s) = rev s"
    by (rule dropWhile_keep)
  show ?thesis by (simp add: strip_def 1 2)
qed

lemma py_int_is_digits:
  assumes "is_digits s"
  shows "py_int s = map_option int (digits_val 0 s)"
proof -
  from assms obtain c r where s: "s = c # r" by (cases s) (simp_all add: is_digits_def)
  with assms have "digit_val c \<noteq> None" by (simp add: is_digits_def)
  then have c: "c \<noteq> CHR ''-''" "c \<noteq> CHR ''+''" using digit_not_sign by simp_all
  have "strip s = c # r"
    using strip_is_digits [OF assms] s by simp
  then have "py_int s = map_option int (parse_digits False 0 s)"
    using c by (simp add: py_int_def s)
  then show ?thesis
    by (simp add: parse_digits_is_digits [OF assms])
qed

lemma length_str_of_nat: "10 ^ k \<le> n \<Longrightarrow> k < length (str_of_nat n)"
proof (induction k arbitrary: n)
  case 0
  have "is_digits (str_of_nat n)" by (rule is_digits_str_of_nat)
  then show ?case by (simp add: is_digits_def)
next
  case (Suc k)
  then have big: "\<not> n < 10"
    by (metis le_trans not_less one_le_numeral one_le_power power_Suc mult.right_neutral
        mult_le_mono2 power_one_right less_le_trans linorder_not_less)
  from Suc.prems have "10 ^ k \<le> n div 10" by simp
  then have "k < length (str_of_nat (n div 10))" by (rule Suc.IH)
  then show ?case by (simp add: str_of_nat_large [OF big])
qed

lemma zfill_long: "w \<le> length s \<Longrightarrow> zfill w s = s"
  by (simp add: zfill_def)

lemma digit_val_zero: "digit_val CHR ''0'' = Some 0"
  by (simp add: digit_val_def)

lemma digit_val_one: "digit_val CHR ''1'' = Some 1"
  by (simp add: digit_val_def)

lemma pad2_small:
  assumes "m < 10"
  shows "zfill 2 (str_of_nat m) = [CHR ''0'', digit_char m]"
proof -
  have "digit_val (digit_char m) \<noteq> None"
    using assms by (simp add: digit_val_digit_char)
  then have "digit_char m \<noteq> CHR ''-'' \<and> digit_char m \<noteq> CHR ''+''"
    by (rule digit_not_sign)
  then show ?thesis
    using assms by (simp add: str_of_nat_small zfill_def numeral_2_eq_2)
qed

lemma pad2_large:
  assumes "\<not> m < 10" and "m < 100"
  shows "zfill 2 (str_of_nat m) = [digit_char (m div 10), digit_char (m mod 10)]"
proof -
  have "m div 10 < 10" using assms(2) by simp
  then have "str_of_nat m = [digit_char (m div 10), digit_char (m mod 10)]"
    using assms(1) by (simp add: str_of_nat_large str_of_nat_small)
  then show ?thesis by (simp add: zfill_def)
qed

lemma pad2_digits:
  assumes "m < 100"
  shows "is_digits (zfill 2 (str_of_nat m))"
    and "digits_val acc (zfill 2 (str_of_nat m)) = Some (acc * 100 + m)"
proof -
  have d: "m div 10 < 10" "m mod 10 < 10" using assms by simp_all
  show "is_digits (zfill 2 (str_of_nat m))"
  proof (cases "m < 10")
    case True
    then show ?thesis
      by (simp add: pad2_small is_digits_def digit_val_zero digit_val_digit_char)
  next
    case False
    then show ?thesis
      using assms d by (simp add: pad2_large is_digits_def digit_val_digit_char)
  qed
  show "digits_val acc (zfill 2 (str_of_nat m)) = Some (acc * 100 + m)"
  proof (cases "m < 10")
    case True
    then show ?thesis
      by (simp add: pad2_small digit_val_zero digit_val_digit_char)
  next
    case False
    have "(acc * 10 + m div 10) * 10 + m mod 10 = acc * 100 + m"
      by (simp add: algebra_simps)
    then show ?thesis
      using False assms d by (simp add: pad2_large digit_val_digit_char)
  qed
qed

lemma day_one_is_digits: "is_digits ''01''"
  by (simp add: is_digits_def digit_val_zero digit_val_one)

lemma day_one_digits_val: "digits_val acc ''01'' = Some (acc * 100 + 1)"
  by (simp add: digit_val_zero digit_val_one)

lemma str_of_int_nonneg: "0 \<le> i \<Longrightarrow> str_of_int i = str_of_nat (nat i)"
  by (simp add: str_of_int_def)

lemma py_int_year_month_key:
  assumes "0 \<le> y" and "0 \<le> m" and "m < 100"
  shows "py_int (year_month_key (IntC y) (IntC m)) = Some (y * 10000 + m * 100 + 1)"
proof -
  let ?s = "str_of_nat (nat y) @ zfill 2 (str_of_nat (nat m)) @ ''01''"
  have m: "nat m < 100" using assms by simp
  have k: "year_month_key (IntC y) (IntC m) = ?s"
    using assms by (simp add: year_month_key_def astype_str_cell_def str_of_int_nonneg)
  have d: "is_digits ?s"
    by (intro is_digits_append is_digits_str_of_nat pad2_digits(1) [OF m] day_one_is_digits)
  have "digits_val 0 ?s = Some ((nat y * 100 + nat m) * 100 + 1)"
    by (simp add: digits_val_append digits_val_str_of_nat pad2_digits(2) [OF m]
        day_one_digits_val del: digits_val.simps)
  then have "py_int ?s = Some (int ((nat y * 100 + nat m) * 100 + 1))"
    by (simp add: py_int_is_digits [OF d])
  also have "int ((nat y * 100 + nat m) * 100 + 1) = y * 10000 + m * 100 + 1"
    using assms by simp
  finally show ?thesis by (simp add: k)
qed

lemma py_int_strftime:
  assumes "1000 \<le> year d" and "0 \<le> month d" and "month d < 100"
    and "0 \<le> day d" and "day d < 100"
  shows "py_int (strftime_Ymd d) = Some (date_key_of d)"
proof -
  let ?y = "nat (year d)" and ?m = "nat (month d)" and ?d = "nat (day d)"
  let ?s = "str_of_nat ?y @ zfill 2 (str_of_nat ?m) @ zfill 2 (str_of_nat ?d)"
  have m: "?m < 100" and dd: "?d < 100" using assms by simp_all
  have "10 ^ 3 \<le> ?y" using assms(1) by simp
  then have "3 < length (str_of_nat ?y)" by (rule length_str_of_nat)
  then have z: "zfill 4 (str_of_nat ?y) = str_of_nat ?y"
    by (simp add: zfill_long)
  have k: "strftime_Ymd d = ?s"
    using assms by (simp add: strftime_Ymd_def str_of_int_nonneg z)
  have dg: "is_digits ?s"
    by (intro is_digits_append is_digits_str_of_nat pad2_digits(1) [OF m] pad2_digits(1) [OF dd])
  have "digits_val 0 ?s = Some ((?y * 100 + ?m) * 100 + ?d)"
    by (simp add: digits_val_append digits_val_str_of_nat pad2_digits(2) [OF m]
        pad2_digits(2) [OF dd])
  then have "py_int ?s = Some (int ((?y * 100 + ?m) * 100 + ?d))"
    by (simp add: py_int_is_digits [OF dg])
  also have "int ((?y * 100 + ?m) * 100 + ?d) = date_key_of d"
    using assms by (simp add: date_key_of_def)
  finally show ?thesis by (simp add: k)
qed

subsection \<open>Columns through the steps of a build\<close>

lemma traverse_Inr_all: "traverse f xs = Inr ys \<Longrightarrow> x \<in> set xs \<Longrightarrow> \<exists>y. f x = Inr y"
  by (induction xs arbitrary: ys) (auto split: sum.splits)

lemma traverse_Inr_iff:
  "traverse f xs = Inr ys \<longleftrightarrow> length ys = length xs \<and> (\<forall>i<length xs. f (xs ! i) = Inr (ys ! i))"
proof (induction xs arbitrary: ys)
  case Nil
  then show ?case by auto
next
  case (Cons x xs)
  show ?case
  proof (cases ys)
    case Nil
    then show ?thesis by (auto split: sum.splits)
  next
    case (Cons y ys')
    have "(\<forall>i<Suc (length xs). f ((x # xs) ! i) = Inr ((y # ys') ! i))
        \<longleftrightarrow> f x = Inr y \<and> (\<forall>i<length xs. f (xs ! i) = Inr (ys' ! i))"
      by (auto simp: less_Suc_eq_0_disj)
    then show ?thesis
      using Cons.IH [of ys'] Cons by (auto split: sum.splits)
  qed
qed

lemma select_Inr_columns:
  assumes "select df cs = Inr d"
  shows "set cs \<subseteq> set (columns df)"
proof
  fix c assume c: "c \<in> set cs"
  from assms obtain sel where
    "traverse (\<lambda>c. and_then (get_col df c) (\<lambda>vs. Inr (c, vs))) cs = Inr sel"
    by (auto simp: select_def and_then_eq_Inr)
  from traverse_Inr_all [OF this c] obtain vs where "get_col df c = Inr vs"
    by (auto simp: and_then_eq_Inr)
  then show "c \<in> set (columns df)" by (rule get_col_Inr_columns)
qed

lemma keyed_select_Inr:
  assumes "and_then (select df cs) (add_surrogate_key k) = Inr d" and "k \<notin> set cs"
  shows "set cs \<subseteq> set (columns df)"
    and "d = \<lparr>nrows = nrows df,
              cols = (k, map IntC [1 .. int (nrows df)]) # map (\<lambda>c. (c, the_col df c)) cs\<rparr>"
proof -
  from assms(1) obtain s where "select df cs = Inr s"
    by (auto simp: and_then_eq_Inr)
  then show sub: "set cs \<subseteq> set (columns df)" by (rule select_Inr_columns)
  show "d = \<lparr>nrows = nrows df,
              cols = (k, map IntC [1 .. int (nrows df)]) # map (\<lambda>c. (c, the_col df c)) cs\<rparr>"
    using entity_dimension [OF sub assms(2)] assms(1) by simp
qed

lemma set_col_Inr:
  assumes "set_col df c vs = Inr df'"
  shows "nrows df' = nrows df" and "length vs = nrows df" and "get_col df' c = Inr vs"
    and "\<And>c'. c' \<noteq> c \<Longrightarrow> get_col df' c' = get_col df c'"
    and "set (columns df') = insert c (set (columns df))"
proof -
  from assms have l: "length vs = nrows df" and d: "df' = df\<lparr>cols := upsert c vs (cols df)\<rparr>"
    by (auto simp: set_col_def split: if_splits)
  show "nrows df' = nrows df" "length vs = nrows df" "get_col df' c = Inr vs"
    by (simp_all add: l d get_col_def map_of_upsert)
  show "\<And>c'. c' \<noteq> c \<Longrightarrow> get_col df' c' = get_col df c'"
    by (simp add: d get_col_def map_of_upsert)
  show "set (columns df') = insert c (set (columns df))"
    by (auto simp: d columns_def fst_upsert)
qed

lemma set_col_ok: "length vs = nrows df \<Longrightarrow> \<exists>df'. set_col df c vs = Inr df'"
  by (simp add: set_col_def)

lemma map_key_Inr:
  assumes "map_key id_col m key_col df = Inr df'"
  shows "nrows df' = nrows df"
    and "\<exists>ids. get_col df id_col = Inr ids \<and> length ids = nrows df
           \<and> get_col df' key_col = Inr (series_map m ids)"
    and "\<And>c'. c' \<noteq> key_col \<Longrightarrow> get_col df' c' = get_col df c'"
    and "set (columns df') = insert key_col (set (columns df))"
proof -
  from assms obtain ids where i: "get_col df id_col = Inr ids"
    and s: "set_col df key_col (series_map m ids) = Inr df'"
    by (auto simp: map_key_def and_then_eq_Inr)
  show "nrows df' = nrows df" by (rule set_col_Inr(1) [OF s])
  have "length ids = nrows df" using set_col_Inr(2) [OF s] by (simp add: series_map_def)
  then show "\<exists>ids. get_col df id_col = Inr ids \<and> length ids = nrows df
           \<and> get_col df' key_col = Inr (series_map m ids)"
    using i set_col_Inr(3) [OF s] by simp
  show "\<And>c'. c' \<noteq> key_col \<Longrightarrow> get_col df' c' = get_col df c'"
    by (rule set_col_Inr(4) [OF s])
  show "set (columns df') = insert key_col (set (columns df))"
    by (rule set_col_Inr(5) [OF s])
qed

lemma map_key_ok:
  "get_col df id_col = Inr ids \<Longrightarrow> length ids = nrows df \<Longrightarrow>
     \<exists>df'. map_key id_col m key_col df = Inr df'"
  by (simp add: map_key_def set_col_def series_map_def)

lemma key_map_Inr:
  "key_map dim id_col key_col = Inr m \<longleftrightarrow>
     (\<exists>ids keys. get_col dim id_col = Inr ids \<and> get_col dim key_col = Inr keys
        \<and> m = dict_zip ids keys)"
  by (auto simp: key_map_def and_then_eq_Inr)

subsection \<open>Performance out\<close>

lemma performance_key_fresh: "''performance_key'' \<notin> set performance_fact_columns"
  by (simp add: performance_fact_columns_def)

lemma create_performance_fact_Inr:
  assumes "create_performance_fact performance_df product_dim date_dim = Inr out"
  shows "\<exists>years months dk ids keys pids.
           get_col performance_df ''year'' = Inr years
         \<and> get_col performance_df ''month'' = Inr months
         \<and> astype_int (map (\<lambda>(y, m). StrC (year_month_key y m)) (zip years months)) = Inr dk
         \<and> get_col product_dim ''product_id'' = Inr ids
         \<and> get_col product_dim ''product_key'' = Inr keys
         \<and> get_col performance_df ''product_id'' = Inr pids
         \<and> nrows out = nrows performance_df
         \<and> columns out = ''performance_key'' # performance_fact_columns
         \<and> get_col out ''performance_key'' = Inr (map IntC [1 .. int (nrows performance_df)])
         \<and> get_col out ''date_key'' = Inr dk
         \<and> get_col out ''product_key'' = Inr (series_map (dict_zip ids keys) pids)
         \<and> length pids = nrows performance_df"
proof -
  from assms obtain years months dk f1 m f2 where
    y: "get_col performance_df ''year'' = Inr years"
    and mo: "get_col performance_df ''month'' = Inr months"
    and a: "astype_int (map (\<lambda>(y, m). StrC (year_month_key y m)) (zip years months)) = Inr dk"
    and s1: "set_col performance_df ''date_key'' dk = Inr f1"
    and km: "key_map product_dim ''product_id'' ''product_key'' = Inr m"
    and mk: "map_key ''product_id'' m ''product_key'' f1 = Inr f2"
    and fin: "and_then (select f2 performance_fact_columns) (add_surrogate_key ''performance_key'')
                = Inr out"
    unfolding create_performance_fact_def and_then_eq_Inr by blast
  from km obtain ids keys where ids: "get_col product_dim ''product_id'' = Inr ids"
    and keys: "get_col product_dim ''product_key'' = Inr keys" and m: "m = dict_zip ids keys"
    unfolding key_map_Inr by blast
  from map_key_Inr(2) [OF mk] obtain pids where p1: "get_col f1 ''product_id'' = Inr pids"
    and lp: "length pids = nrows f1"
    and pk: "get_col f2 ''product_key'' = Inr (series_map m pids)" by blast
  have pids: "get_col performance_df ''product_id'' = Inr pids"
    using p1 set_col_Inr(4) [OF s1, of "''product_id''"] by simp
  have dk2: "get_col f2 ''date_key'' = Inr dk"
    using set_col_Inr(3) [OF s1] map_key_Inr(3) [OF mk, of "''date_key''"] by simp
  have n2: "nrows f2 = nrows performance_df"
    using set_col_Inr(1) [OF s1] map_key_Inr(1) [OF mk] by simp
  note k = keyed_select_Inr [OF fin performance_key_fresh]
  note kf = keyed_frame [OF k(1) performance_key_fresh k(2)]
  have "''date_key'' \<in> set performance_fact_columns" "''product_key'' \<in> set performance_fact_columns"
    by (simp_all add: performance_fact_columns_def)
  then have "get_col out ''date_key'' = Inr dk"
    and "get_col out ''product_key'' = Inr (series_map m pids)"
    using kf(4) dk2 pk by simp_all
  then show ?thesis
    using y mo a ids keys pids kf(1-3) n2 m lp set_col_Inr(1) [OF s1] by simp
qed

lemma create_performance_fact_ok:
  assumes "get_col performance_df ''year'' = Inr years"
    and "get_col performance_df ''month'' = Inr months"
    and "astype_int (map (\<lambda>(y, m). StrC (year_month_key y m)) (zip years months)) = Inr dk"
    and "length years = nrows performance_df" and "length months = nrows performance_df"
    and "get_col product_dim ''product_id'' = Inr ids"
    and "get_col product_dim ''product_key'' = Inr keys"
    and "get_col performance_df ''product_id'' = Inr pids"
    and "length pids = nrows performance_df"
    and "set performance_fact_columns - {''date_key'', ''product_key''}
           \<subseteq> set (columns performance_df)"
  shows "\<exists>out. create_performance_fact performance_df product_dim date_dim = Inr out"
proof -
  have "length dk = nrows performance_df"
    using traverse_length [OF assms(3) [unfolded astype_int_def]] assms(4,5) by simp
  then obtain f1 where s1: "set_col performance_df ''date_key'' dk = Inr f1"
    using set_col_ok by blast
  have km: "key_map product_dim ''product_id'' ''product_key'' = Inr (dict_zip ids keys)"
    using assms(6,7) by (simp add: key_map_def)
  have "get_col f1 ''product_id'' = Inr pids" "length pids = nrows f1"
    using set_col_Inr(4) [OF s1, of "''product_id''"] set_col_Inr(1) [OF s1] assms(8,9) by simp_all
  then obtain f2 where mk: "map_key ''product_id'' (dict_zip ids keys) ''product_key'' f1 = Inr f2"
    using map_key_ok by blast
  have "set (columns f2) = insert ''product_key'' (insert ''date_key'' (set (columns performance_df)))"
    using set_col_Inr(5) [OF s1] map_key_Inr(4) [OF mk] by simp
  then have "set performance_fact_columns \<subseteq> set (columns f2)"
    using assms(10) by auto
  then have "\<exists>out. and_then (select f2 performance_fact_columns)
      (add_surrogate_key ''performance_key'') = Inr out"
    using entity_dimension [OF _ performance_key_fresh] by blast
  then show ?thesis
    unfolding create_performance_fact_def by (simp add: assms(1-3) s1 km mk)
qed

lemma astype_int_year_month:
  assumes "four_digit_year y" and "calendar_month m"
  shows "astype_int_cell (StrC (year_month_key y m))
           = Inr (IntC (the_int y * 10000 + the_int m * 100 + 1))"
proof -
  from assms obtain yy mm where y: "y = IntC yy" "1000 \<le> yy" "yy \<le> 9999"
    and m: "m = IntC mm" "1 \<le> mm" "mm \<le> 12"
    by (auto simp: four_digit_year_def calendar_month_def split: cell.splits)
  have "py_int (year_month_key y m) = Some (yy * 10000 + mm * 100 + 1)"
    unfolding y(1) m(1) using y(2) m(2,3) by (intro py_int_year_month_key) simp_all
  then show ?thesis
    using y m by (simp add: astype_int_cell_def the_int_def)
qed

subsection \<open>Sales fact\<close>

lemma sales_key_fresh: "''sales_key'' \<notin> set sales_fact_columns"
  by (simp add: sales_fact_columns_def)

lemma date_key_column_length: "date_key_column dates = Inr dk \<Longrightarrow> length dk = length dates"
  unfolding date_key_column_def and_then_eq_Inr dt_strftime_def astype_int_def
  by (metis traverse_length)

lemma to_datetime_length: "to_datetime td = Inr dates \<Longrightarrow> length dates = length td"
  unfolding to_datetime_def by (rule traverse_length)

lemma create_sales_fact_Inr:
  assumes "create_sales_fact sales_df product_dim customer_dim store_dim date_dim = Inr out"
  shows "\<exists>td dates dk pi pk ci ck si sk pids cids sids.
           get_col sales_df ''transaction_date'' = Inr td
         \<and> to_datetime td = Inr dates
         \<and> date_key_column dates = Inr dk
         \<and> get_col product_dim ''product_id'' = Inr pi
         \<and> get_col product_dim ''product_key'' = Inr pk
         \<and> get_col customer_dim ''customer_id'' = Inr ci
         \<and> get_col customer_dim ''customer_key'' = Inr ck
         \<and> get_col store_dim ''store_id'' = Inr si
         \<and> get_col store_dim ''store_key'' = Inr sk
         \<and> get_col sales_df ''product_id'' = Inr pids
         \<and> get_col sales_df ''customer_id'' = Inr cids
         \<and> get_col sales_df ''store_id'' = Inr sids
         \<and> nrows out = nrows sales_df
         \<and> columns out = ''sales_key'' # sales_fact_columns
         \<and> get_col out ''sales_key'' = Inr (map IntC [1 .. int (nrows sales_df)])
         \<and> get_col out ''date_key'' = Inr dk
         \<and> get_col out ''product_key'' = Inr (series_map (dict_zip pi pk) pids)
         \<and> get_col out ''customer_key'' = Inr (series_map (dict_zip ci ck) cids)
         \<and> get_col out ''store_key'' = Inr (series_map (dict_zip si sk) sids)
         \<and> length dk = nrows sales_df \<and> length pids = nrows sales_df
         \<and> length cids = nrows sales_df \<and> length sids = nrows sales_df
         \<and> (\<forall>c\<in>set sales_measure_columns. get_col out c = get_col sales_df c)"
proof -
  from assms obtain td dates f1 dates' dk f2 pm cm sm f3 f4 f5 where
    td: "get_col sales_df ''transaction_date'' = Inr td"
    and dt: "to_datetime td = Inr dates"
    and s1: "set_col sales_df ''transaction_date'' dates = Inr f1"
    and g1: "get_col f1 ''transaction_date'' = Inr dates'"
    and dk: "date_key_column dates' = Inr dk"
    and s2: "set_col f1 ''date_key'' dk = Inr f2"
    and kp: "key_map product_dim ''product_id'' ''product_key'' = Inr pm"
    and kc: "key_map customer_dim ''customer_id'' ''customer_key'' = Inr cm"
    and ks: "key_map store_dim ''store_id'' ''store_key'' = Inr sm"
    and m3: "map_key ''product_id'' pm ''product_key'' f2 = Inr f3"
    and m4: "map_key ''customer_id'' cm ''customer_key'' f3 = Inr f4"
    and m5: "map_key ''store_id'' sm ''store_key'' f4 = Inr f5"
    and fin: "and_then (select f5 sales_fact_columns) (add_surrogate_key ''sales_key'') = Inr out"
    unfolding create_sales_fact_def and_then_eq_Inr by blast
  have d': "dates' = dates" using g1 set_col_Inr(3) [OF s1] by simp
  from kp obtain pi pk where pi: "get_col product_dim ''product_id'' = Inr pi"
    and pk: "get_col product_dim ''product_key'' = Inr pk" and pm: "pm = dict_zip pi pk"
    unfolding key_map_Inr by blast
  from kc obtain ci ck where ci: "get_col customer_dim ''customer_id'' = Inr ci"
    and ck: "get_col customer_dim ''customer_key'' = Inr ck" and cm: "cm = dict_zip ci ck"
    unfolding key_map_Inr by blast
  from ks obtain si sk where si: "get_col store_dim ''store_id'' = Inr si"
    and sk: "get_col store_dim ''store_key'' = Inr sk" and sm: "sm = dict_zip si sk"
    unfolding key_map_Inr by blast
  from map_key_Inr(2) [OF m3] obtain pids where p2: "get_col f2 ''product_id'' = Inr pids"
    and lp: "length pids = nrows f2"
    and p3: "get_col f3 ''product_key'' = Inr (series_map pm pids)" by blast
  from map_key_Inr(2) [OF m4] obtain cids where c3: "get_col f3 ''customer_id'' = Inr cids"
    and lc: "length cids = nrows f3"
    and c4: "get_col f4 ''customer_key'' = Inr (series_map cm cids)" by blast
  from map_key_Inr(2) [OF m5] obtain sids where s4: "get_col f4 ''store_id'' = Inr sids"
    and ls: "length sids = nrows f4"
    and s5: "get_col f5 ''store_key'' = Inr (series_map sm sids)" by blast
  have pids: "get_col sales_df ''product_id'' = Inr pids"
    using p2 set_col_Inr(4) [OF s2, of "''product_id''"] set_col_Inr(4) [OF s1, of "''product_id''"]
    by simp
  have cids: "get_col sales_df ''customer_id'' = Inr cids"
    using c3 map_key_Inr(3) [OF m3, of "''customer_id''"]
      set_col_Inr(4) [OF s2, of "''customer_id''"] set_col_Inr(4) [OF s1, of "''customer_id''"]
    by simp
  have sids: "get_col sales_df ''store_id'' = Inr sids"
    using s4 map_key_Inr(3) [OF m4, of "''store_id''"] map_key_Inr(3) [OF m3, of "''store_id''"]
      set_col_Inr(4) [OF s2, of "''store_id''"] set_col_Inr(4) [OF s1, of "''store_id''"]
    by simp
  have dk5: "get_col f5 ''date_key'' = Inr dk"
    using set_col_Inr(3) [OF s2] map_key_Inr(3) [OF m3, of "''date_key''"]
      map_key_Inr(3) [OF m4, of "''date_key''"] map_key_Inr(3) [OF m5, of "''date_key''"]
    by simp
  have p5: "get_col f5 ''product_key'' = Inr (series_map pm pids)"
    using p3 map_key_Inr(3) [OF m4, of "''product_key''"] map_key_Inr(3) [OF m5, of "''product_key''"]
    by simp
  have c5: "get_col f5 ''customer_key'' = Inr (series_map cm cids)"
    using c4 map_key_Inr(3) [OF m5, of "''customer_key''"] by simp
  have n5: "nrows f5 = nrows sales_df"
    using set_col_Inr(1) [OF s1] set_col_Inr(1) [OF s2] map_key_Inr(1) [OF m3]
      map_key_Inr(1) [OF m4] map_key_Inr(1) [OF m5] by simp
  note k = keyed_select_Inr [OF fin sales_key_fresh]
  note kf = keyed_frame [OF k(1) sales_key_fresh k(2)]
  have "''date_key'' \<in> set sales_fact_columns" "''product_key'' \<in> set sales_fact_columns"
    "''customer_key'' \<in> set sales_fact_columns" "''store_key'' \<in> set sales_fact_columns"
    by (simp_all add: sales_fact_columns_def)
  then have "get_col out ''date_key'' = Inr dk"
    and "get_col out ''product_key'' = Inr (series_map pm pids)"
    and "get_col out ''customer_key'' = Inr (series_map cm cids)"
    and "get_col out ''store_key'' = Inr (series_map sm sids)"
    using kf(4) dk5 p5 c5 s5 by simp_all
  moreover have "length dk = nrows sales_df" "length pids = nrows sales_df"
    "length cids = nrows sales_df" "length sids = nrows sales_df"
    using set_col_Inr(2) [OF s2] lp lc ls set_col_Inr(1) [OF s1] set_col_Inr(1) [OF s2]
      map_key_Inr(1) [OF m3] map_key_Inr(1) [OF m4] by simp_all
  moreover have "\<forall>c\<in>set sales_measure_columns. get_col out c = get_col sales_df c"
  proof
    fix c assume c: "c \<in> set sales_measure_columns"
    then have "c \<in> set sales_fact_columns"
      by (auto simp: sales_measure_columns_def sales_fact_columns_def)
    then have "get_col out c = get_col f5 c" using kf(4) by simp
    moreover have "c \<noteq> ''transaction_date''" "c \<noteq> ''date_key''" "c \<noteq> ''product_key''"
      "c \<noteq> ''customer_key''" "c \<noteq> ''store_key''"
      using c by (auto simp: sales_measure_columns_def)
    ultimately show "get_col out c = get_col sales_df c"
      using set_col_Inr(4) [OF s1, of c] set_col_Inr(4) [OF s2, of c] map_key_Inr(3) [OF m3, of c]
        map_key_Inr(3) [OF m4, of c] map_key_Inr(3) [OF m5, of c] by simp
  qed
  ultimately show ?thesis
    using td dt dk d' pi pk ci ck si sk pids cids sids kf(1-3) n5 pm cm sm by simp
qed

subsection \<open>The dictionary of surrogate keys\<close>

lemma dict_zip_put: "dict_zip ks vs = fold put (zip ks vs) Map.empty"
proof -
  have "(\<lambda>(k, v) m. m(k \<mapsto> v)) = (put :: cell \<times> cell \<Rightarrow> _)"
    by (auto simp: put_def fun_eq_iff)
  then show ?thesis by (simp add: dict_zip_def)
qed

lemma fold_put_absent: "k \<notin> fst ` set ps \<Longrightarrow> fold put ps m k = m k"
  by (induction ps arbitrary: m) (simp_all add: put_def)

lemma fold_put_last:
  assumes "j < length ps" and "fst (ps ! j) = k"
    and "\<forall>j'. j < j' \<and> j' < length ps \<longrightarrow> fst (ps ! j') \<noteq> k"
  shows "fold put ps m k = Some (snd (ps ! j))"
  using assms
proof (induction ps arbitrary: m j)
  case Nil
  then show ?case by simp
next
  case (Cons p ps)
  show ?case
  proof (cases j)
    case 0
    have "k \<notin> fst ` set ps"
    proof
      assume "k \<in> fst ` set ps"
      then obtain i where "i < length ps" "fst (ps ! i) = k"
        by (auto simp: in_set_conv_nth)
      then show False using Cons.prems(3) [rule_format, of "Suc i"] 0 by simp
    qed
    then have "fold put ps (put p m) k = put p m k"
      by (rule fold_put_absent)
    moreover have "put p m k = Some (snd p)"
      using 0 Cons.prems(2) by (simp add: put_def)
    ultimately show ?thesis
      using 0 by simp
  next
    case (Suc j0)
    have "\<forall>j'. j0 < j' \<and> j' < length ps \<longrightarrow> fst (ps ! j') \<noteq> k"
    proof (intro allI impI)
      fix j' assume "j0 < j' \<and> j' < length ps"
      then show "fst (ps ! j') \<noteq> k"
        using Cons.prems(3) [rule_format, of "Suc j'"] Suc by simp
    qed
    then have "fold put ps (put p m) k = Some (snd (ps ! j0))"
      using Cons.prems(1,2) Suc by (intro Cons.IH) simp_all
    then show ?thesis using Suc by simp
  qed
qed


lemma dict_zip_last:
  assumes "length ks = length vs" and "j < length ks" and "ks ! j = k"
    and "\<forall>j'. j < j' \<and> j' < length ks \<longrightarrow> ks ! j' \<noteq> k"
  shows "dict_zip ks vs k = Some (vs ! j)"
proof -
  have "fold put (zip ks vs) Map.empty k = Some (snd (zip ks vs ! j))"
    using assms by (intro fold_put_last) simp_all
  then show ?thesis using assms by (simp add: dict_zip_put)
qed

lemma series_map_nth:
  "i < length vs \<Longrightarrow> series_map d vs ! i = (case d (vs ! i) of None \<Rightarrow> NaN | Some k \<Rightarrow> k)"
  by (simp add: series_map_def)


lemma series_map_last:
  assumes "i < length pids" and "length ids = length keys" and "j < length ids"
    and "ids ! j = pids ! i" and "\<forall>j'. j < j' \<and> j' < length ids \<longrightarrow> ids ! j' \<noteq> pids ! i"
  shows "series_map (dict_zip ids keys) pids ! i = keys ! j"
  using dict_zip_last [OF assms(2,3,4,5)] assms(1) by (simp add: series_map_nth)

subsection \<open>The calendar\<close>

lemma days_in_month_bounds: "28 \<le> days_in_month y m" "days_in_month y m \<le> 31"
  by (simp_all add: days_in_month_def)

lemma valid_next_day: "valid_date d \<Longrightarrow> valid_date (next_day d)"
  using days_in_month_bounds [of "year d" "month d + 1"] days_in_month_bounds [of "year d + 1" 1]
  by (auto simp: valid_date_def next_day_def mk_date_def)

lemma next_day_greater: "valid_date d \<Longrightarrow> date_less d (next_day d)"
  by (auto simp: valid_date_def next_day_def mk_date_def date_less_def)

lemma next_day_least:
  assumes "valid_date d" and "valid_date x" and "date_less d x"
  shows "date_le (next_day d) x"
  using assms
  by (auto simp: valid_date_def next_day_def mk_date_def date_less_def date_le_def)

lemma date_le_less: "date_le a b \<longleftrightarrow> date_less a b \<or> a = b"
  by (cases a; cases b) (auto simp: date_le_def date_less_def)

lemma date_less_trans: "date_less a b \<Longrightarrow> date_less b c \<Longrightarrow> date_less a c"
  by (auto simp: date_less_def)

lemma date_less_le_trans: "date_less a b \<Longrightarrow> date_le b c \<Longrightarrow> date_less a c"
  by (auto simp: date_less_def date_le_def)

lemma date_less_irrefl: "\<not> date_less a a"
  by (simp add: date_less_def)

lemma date_key_mono:
  "valid_date a \<Longrightarrow> valid_date b \<Longrightarrow> date_less a b \<Longrightarrow> date_key_of a < date_key_of b"
  using days_in_month_bounds(2) [of "year a" "month a"] days_in_month_bounds(2) [of "year b" "month b"]
  by (auto simp: valid_date_def date_less_def date_key_of_def)

lemma date_range_valid: "valid_date s \<Longrightarrow> x \<in> set (date_range s e) \<Longrightarrow> valid_date x"
proof (induction s e rule: date_range.induct)
  case (1 s e)
  show ?case
  proof (cases "date_le s e")
    case True
    with 1 show ?thesis
      by (subst (asm) (2) date_range.simps) (auto simp: valid_next_day)
  next
    case False
    with 1 show ?thesis
      by (subst (asm) date_range.simps) simp
  qed
qed

lemma date_range_set:
  "valid_date s \<Longrightarrow>
     set (date_range s e) = {x. valid_date x \<and> date_le s x \<and> date_le x e}"
proof (induction s e rule: date_range.induct)
  case (1 s e)
  show ?case
  proof (cases "date_le s e")
    case True
    have r: "date_range s e = s # date_range (next_day s) e"
      using True by (subst date_range.simps) simp
    have ih: "set (date_range (next_day s) e)
        = {x. valid_date x \<and> date_le (next_day s) x \<and> date_le x e}"
      using 1 True by (simp add: valid_next_day)
    have "{x. valid_date x \<and> date_le s x \<and> date_le x e}
        = insert s {x. valid_date x \<and> date_le (next_day s) x \<and> date_le x e}"
    proof (intro set_eqI iffI)
      fix x assume "x \<in> {x. valid_date x \<and> date_le s x \<and> date_le x e}"
      then have x: "valid_date x" "date_le s x" "date_le x e" by simp_all
      show "x \<in> insert s {x. valid_date x \<and> date_le (next_day s) x \<and> date_le x e}"
      proof (cases "x = s")
        case True
        then show ?thesis by simp
      next
        case False
        then have "date_less s x" using x(2) by (auto simp: date_le_less)
        then have "date_le (next_day s) x"
          using next_day_least [OF "1.prems" x(1)] by simp
        then show ?thesis using x by simp
      qed
    next
      fix x assume "x \<in> insert s {x. valid_date x \<and> date_le (next_day s) x \<and> date_le x e}"
      then consider "x = s" | "valid_date x" "date_le (next_day s) x" "date_le x e" by auto
      then show "x \<in> {x. valid_date x \<and> date_le s x \<and> date_le x e}"
      proof cases
        case 1
        then show ?thesis using "1.prems" True by (simp add: date_le_less)
      next
        case 2
        have "date_less s x"
          using next_day_greater [OF "1.prems"] 2(2) by (rule date_less_le_trans)
        then show ?thesis using 2 by (simp add: date_le_less)
      qed
    qed
    then show ?thesis by (simp add: r ih)
  next
    case False
    have "date_range s e = []"
      using False by (subst date_range.simps) simp
    moreover have "{x. valid_date x \<and> date_le s x \<and> date_le x e} = {}"
    proof -
      have "\<not> (date_le s x \<and> date_le x e)" for x
        using False by (auto simp: date_le_def)
      then show ?thesis by simp
    qed
    ultimately show ?thesis by simp
  qed
qed

lemma date_range_sorted: "valid_date s \<Longrightarrow> sorted_wrt date_less (date_range s e)"
proof (induction s e rule: date_range.induct)
  case (1 s e)
  show ?case
  proof (cases "date_le s e")
    case True
    have r: "date_range s e = s # date_range (next_day s) e"
      using True by (subst date_range.simps) simp
    have "date_less s x" if "x \<in> set (date_range (next_day s) e)" for x
    proof -
      have "date_le (next_day s) x"
        using that date_range_set [OF valid_next_day [OF "1.prems"], of e] by simp
      with next_day_greater [OF "1.prems"] show ?thesis by (rule date_less_le_trans)
    qed
    then show ?thesis
      using 1 True by (simp add: r valid_next_day)
  next
    case False
    then show ?thesis by (subst date_range.simps) simp
  qed
qed

subsection \<open>Date keys of a column of dates\<close>

lemma date_range_length: "length (date_range start_date end_date) = 730"
  by code_simp

lemma astype_int_strftime:
  assumes "valid_date d" and "1000 \<le> year d" and "year d \<le> 9999"
  shows "astype_int_cell (StrC (strftime_Ymd d)) = Inr (IntC (date_key_of d))"
proof -
  have b: "1 \<le> month d" "month d \<le> 12" "1 \<le> day d" "day d \<le> 31"
    using assms(1) days_in_month_bounds(2) [of "year d" "month d"]
    by (auto simp: valid_date_def)
  then have "py_int (strftime_Ymd d) = Some (date_key_of d)"
    using assms(2) by (intro py_int_strftime) simp_all
  moreover have "- (2 ^ 63) \<le> date_key_of d" "date_key_of d < 2 ^ 63"
    using assms(2,3) b by (simp_all add: date_key_of_def)
  ultimately show ?thesis
    by (simp add: astype_int_cell_def)
qed

lemma date_key_column_dates:
  assumes "\<forall>d\<in>set ds. valid_date d \<and> 1000 \<le> year d \<and> year d \<le> 9999"
  shows "date_key_column (map DateC ds) = Inr (map (\<lambda>d. IntC (date_key_of d)) ds)"
proof -
  have 1: "dt_strftime (map DateC ds) = Inr (map (\<lambda>d. StrC (strftime_Ymd d)) ds)"
    unfolding dt_strftime_def traverse_Inr_iff
    by (simp add: dt_strftime_cell_def)
  have 2: "astype_int (map (\<lambda>d. StrC (strftime_Ymd d)) ds)
      = Inr (map (\<lambda>d. IntC (date_key_of d)) ds)"
    unfolding astype_int_def traverse_Inr_iff
    using assms by (simp add: astype_int_strftime)
  show ?thesis
    by (simp add: date_key_column_def 1 2)
qed

lemma date_le_year: "date_le a b \<Longrightarrow> year a \<le> year b"
  by (auto simp: date_le_def)

lemma valid_start_date: "valid_date start_date"
  by (simp add: start_date_def valid_date_def mk_date_def days_in_month_def)

lemma calendar_days:
  assumes "d \<in> set (date_range start_date end_date)"
  shows "valid_date d" and "2022 \<le> year d" and "year d \<le> 2023"
proof -
  from assms have d: "valid_date d" "date_le start_date d" "date_le d end_date"
    by (simp_all add: date_range_set [OF valid_start_date])
  show "valid_date d" by (rule d(1))
  show "2022 \<le> year d" "year d \<le> 2023"
    using date_le_year [OF d(2)] date_le_year [OF d(3)]
    by (simp_all add: start_date_def end_date_def mk_date_def)
qed

lemma create_date_dimension_eq:
  "create_date_dimension =
     (let dr = date_range start_date end_date
      in Inr \<lparr>nrows = length dr,
            cols = [(''date_id'', map IntC [1 .. int (length dr)]),
                    (''date'', map DateC dr),
                    (''day'', map (\<lambda>d. IntC (day d)) dr),
                    (''month'', map (\<lambda>d. IntC (month d)) dr),
                    (''quarter'', map (\<lambda>d. IntC (quarter d)) dr),
                    (''year'', map (\<lambda>d. IntC (year d)) dr),
                    (''day_of_week'', map (\<lambda>d. IntC (dayofweek d)) dr),
                    (''day_name'', map (\<lambda>d. StrC (day_name d)) dr),
                    (''month_name'', map (\<lambda>d. StrC (month_name d)) dr),
                    (''is_weekend'', map (\<lambda>d. BoolC (dayofweek d = 5 \<or> dayofweek d = 6)) dr),
                    (''date_key'', map (\<lambda>d. IntC (date_key_of d)) dr)]\<rparr>)"
proof -
  have "\<forall>d\<in>set (date_range start_date end_date). valid_date d \<and> 1000 \<le> year d \<and> year d \<le> 9999"
    using calendar_days by fastforce
  then have "date_key_column (map DateC (date_range start_date end_date))
      = Inr (map (\<lambda>d. IntC (date_key_of d)) (date_range start_date end_date))"
    by (rule date_key_column_dates)
  then show ?thesis
    by (simp add: create_date_dimension_def Let_def get_col_def set_col_def)
qed

lemma dated_date:
  assumes "dated c"
  shows "to_datetime_cell c = Inr (DateC (the_date c))"
    and "valid_date (the_date c)"
    and "date_le timestamp_min (the_date c)" and "date_le (the_date c) timestamp_max"
    and "1000 \<le> year (the_date c)" and "year (the_date c) \<le> 9999"
proof -
  from assms obtain d where d: "to_datetime_cell c = Inr (DateC d)"
    and v: "valid_date d" "date_le timestamp_min d" "date_le d timestamp_max"
    by (auto simp: dated_def split: sum.splits cell.splits)
  have t: "the_date c = d" by (simp add: the_date_def d)
  show "to_datetime_cell c = Inr (DateC (the_date c))" "valid_date (the_date c)"
    "date_le timestamp_min (the_date c)" "date_le (the_date c) timestamp_max"
    by (simp_all add: t d v)
  show "1000 \<le> year (the_date c)" "year (the_date c) \<le> 9999"
    using date_le_year [OF v(2)] date_le_year [OF v(3)]
    by (simp_all add: t timestamp_min_def timestamp_max_def mk_date_def)
qed

lemma to_datetime_dated:
  assumes "list_all dated td"
  shows "to_datetime td = Inr (map (\<lambda>c. DateC (the_date c)) td)"
  unfolding to_datetime_def
  using assms by (intro traverse_Inr_map) (simp add: list_all_iff dated_date(1))

lemma date_key_column_dated:
  assumes "list_all dated td"
  shows "date_key_column (map (\<lambda>c. DateC (the_date c)) td)
           = Inr (map (\<lambda>c. IntC (date_key_of (the_date c))) td)"
proof -
  have "\<forall>d\<in>set (map the_date td). valid_date d \<and> 1000 \<le> year d \<and> year d \<le> 9999"
    using assms by (auto simp: list_all_iff dated_date)
  from date_key_column_dates [OF this] show ?thesis
    by (simp add: comp_def)
qed

lemma create_sales_fact_ok:
  assumes "sales_inputs_ok sales_df product_dim customer_dim store_dim"
  shows "\<exists>out. create_sales_fact sales_df product_dim customer_dim store_dim date_dim = Inr out"
proof -
  let ?td = "the_col sales_df ''transaction_date''"
  let ?dates = "map (\<lambda>c. DateC (the_date c)) ?td"
  let ?dk = "map (\<lambda>c. IntC (date_key_of (the_date c))) ?td"
  from assms have wf: "wf_df sales_df"
    and cs: "set sales_input_columns \<subseteq> set (columns sales_df)"
    and dt: "list_all dated ?td"
    and pd: "set [''product_id'', ''product_key''] \<subseteq> set (columns product_dim)"
    and cd: "set [''customer_id'', ''customer_key''] \<subseteq> set (columns customer_dim)"
    and sd: "set [''store_id'', ''store_key''] \<subseteq> set (columns store_dim)"
    by (simp_all add: sales_inputs_ok_def)
  have col: "c \<in> set sales_input_columns \<Longrightarrow> get_col sales_df c = Inr (the_col sales_df c)" for c
    using cs by (auto intro: get_col_the_col)
  have len: "c \<in> set sales_input_columns \<Longrightarrow> length (the_col sales_df c) = nrows sales_df" for c
    using wf_get_col_length [OF wf col] by simp
  have td: "get_col sales_df ''transaction_date'' = Inr ?td"
    by (rule col) (simp add: sales_input_columns_def)
  have ltd: "length ?td = nrows sales_df"
    by (rule len) (simp add: sales_input_columns_def)
  obtain f1 where s1: "set_col sales_df ''transaction_date'' ?dates = Inr f1"
    using set_col_ok [of ?dates sales_df] ltd by auto
  have g1: "get_col f1 ''transaction_date'' = Inr ?dates"
    by (rule set_col_Inr(3) [OF s1])
  obtain f2 where s2: "set_col f1 ''date_key'' ?dk = Inr f2"
    using set_col_ok [of ?dk f1] ltd set_col_Inr(1) [OF s1] by auto
  have kp: "key_map product_dim ''product_id'' ''product_key''
      = Inr (dict_zip (the_col product_dim ''product_id'') (the_col product_dim ''product_key''))"
    using pd by (simp add: key_map_def get_col_the_col)
  have kc: "key_map customer_dim ''customer_id'' ''customer_key''
      = Inr (dict_zip (the_col customer_dim ''customer_id'') (the_col customer_dim ''customer_key''))"
    using cd by (simp add: key_map_def get_col_the_col)
  have ks: "key_map store_dim ''store_id'' ''store_key''
      = Inr (dict_zip (the_col store_dim ''store_id'') (the_col store_dim ''store_key''))"
    using sd by (simp add: key_map_def get_col_the_col)
  let ?pm = "dict_zip (the_col product_dim ''product_id'') (the_col product_dim ''product_key'')"
  let ?cm = "dict_zip (the_col customer_dim ''customer_id'') (the_col customer_dim ''customer_key'')"
  let ?sm = "dict_zip (the_col store_dim ''store_id'') (the_col store_dim ''store_key'')"
  have n2: "nrows f2 = nrows sales_df"
    using set_col_Inr(1) [OF s1] set_col_Inr(1) [OF s2] by simp
  have "get_col f2 ''product_id'' = Inr (the_col sales_df ''product_id'')"
    using set_col_Inr(4) [OF s2, of "''product_id''"] set_col_Inr(4) [OF s1, of "''product_id''"]
      col [of "''product_id''"] by (simp add: sales_input_columns_def)
  moreover have "length (the_col sales_df ''product_id'') = nrows f2"
    using len [of "''product_id''"] n2 by (simp add: sales_input_columns_def)
  ultimately obtain f3 where m3: "map_key ''product_id'' ?pm ''product_key'' f2 = Inr f3"
    using map_key_ok by blast
  have n3: "nrows f3 = nrows sales_df" using map_key_Inr(1) [OF m3] n2 by simp
  have "get_col f3 ''customer_id'' = Inr (the_col sales_df ''customer_id'')"
    using map_key_Inr(3) [OF m3, of "''customer_id''"]
      set_col_Inr(4) [OF s2, of "''customer_id''"] set_col_Inr(4) [OF s1, of "''customer_id''"]
      col [of "''customer_id''"] by (simp add: sales_input_columns_def)
  moreover have "length (the_col sales_df ''customer_id'') = nrows f3"
    using len [of "''customer_id''"] n3 by (simp add: sales_input_columns_def)
  ultimately obtain f4 where m4: "map_key ''customer_id'' ?cm ''customer_key'' f3 = Inr f4"
    using map_key_ok by blast
  have n4: "nrows f4 = nrows sales_df" using map_key_Inr(1) [OF m4] n3 by simp
  have "get_col f4 ''store_id'' = Inr (the_col sales_df ''store_id'')"
    using map_key_Inr(3) [OF m4, of "''store_id''"] map_key_Inr(3) [OF m3, of "''store_id''"]
      set_col_Inr(4) [OF s2, of "''store_id''"] set_col_Inr(4) [OF s1, of "''store_id''"]
      col [of "''store_id''"] by (simp add: sales_input_columns_def)
  moreover have "length (the_col sales_df ''store_id'') = nrows f4"
    using len [of "''store_id''"] n4 by (simp add: sales_input_columns_def)
  ultimately obtain f5 where m5: "map_key ''store_id'' ?sm ''store_key'' f4 = Inr f5"
    using map_key_ok by blast
  have "set (columns f5) = {''store_key'', ''customer_key'', ''product_key'', ''date_key'',
      ''transaction_date''} \<union> set (columns sales_df)"
    using set_col_Inr(5) [OF s1] set_col_Inr(5) [OF s2] map_key_Inr(4) [OF m3]
      map_key_Inr(4) [OF m4] map_key_Inr(4) [OF m5] by auto
  then have "set sales_fact_columns \<subseteq> set (columns f5)"
    using cs by (auto simp: sales_fact_columns_def sales_input_columns_def)
  then have "\<exists>out. and_then (select f5 sales_fact_columns) (add_surrogate_key ''sales_key'') = Inr out"
    using entity_dimension [OF _ sales_key_fresh] by blast
  then show ?thesis
    unfolding create_sales_fact_def
    by (simp add: td to_datetime_dated [OF dt] s1 g1 date_key_column_dated [OF dt] s2 kp kc ks m3 m4 m5)
qed

subsection \<open>Resolving natural keys\<close>

lemma last_occurrence_later:
  assumes "last_occurrence k ids j"
  shows "j < length ids" and "ids ! j = k"
    and "\<forall>j'. j < j' \<and> j' < length ids \<longrightarrow> ids ! j' \<noteq> k"
proof -
  show "j < length ids" "ids ! j = k" using assms by (simp_all add: last_occurrence_def)
  show "\<forall>j'. j < j' \<and> j' < length ids \<longrightarrow> ids ! j' \<noteq> k"
  proof (intro allI impI)
    fix j' assume h: "j < j' \<and> j' < length ids"
    then have "ids ! j' = drop (Suc j) ids ! (j' - Suc j)" by simp
    moreover have "j' - Suc j < length (drop (Suc j) ids)" using h by (simp add: less_diff_conv2) arith
    ultimately have "ids ! j' \<in> set (drop (Suc j) ids)" by (metis nth_mem)
    then show "ids ! j' \<noteq> k" using assms by (auto simp: last_occurrence_def)
  qed
qed

lemma occurs_once_last: "occurs_once k ids j \<Longrightarrow> last_occurrence k ids j"
  by (simp add: occurs_once_def last_occurrence_def)

lemma resolve_last:
  assumes "wf_df dim" and "get_col dim id_col = Inr ids" and "get_col dim key_col = Inr keys"
    and "i < length pids" and "last_occurrence (pids ! i) ids j"
  shows "series_map (dict_zip ids keys) pids ! i = keys ! j"
proof -
  have "length ids = length keys"
    using wf_get_col_length [OF assms(1,2)] wf_get_col_length [OF assms(1,3)] by simp
  then show ?thesis
    using series_map_last [OF assms(4) _ last_occurrence_later(1) [OF assms(5)]]
      last_occurrence_later(2,3) [OF assms(5)] by simp
qed


lemma example_dates:
  "to_datetime_cell (StrC ''2022-03-15'') = Inr (DateC (mk_date 2022 3 15))"
  "to_datetime_cell (StrC ''2024-01-01'') = Inr (DateC (mk_date 2024 1 1))"
  by code_simp+

lemma example_dated: "dated (StrC ''2022-03-15'')" "dated (StrC ''2024-01-01'')"
  by code_simp+

lemma example_the_date:
  "the_date (StrC ''2022-03-15'') = mk_date 2022 3 15"
  "the_date (StrC ''2024-01-01'') = mk_date 2024 1 1"
  by (simp_all add: the_date_def example_dates)

lemma example_sales_ok:
  "sales_inputs_ok example_sales example_product_dim example_customer_dim example_store_dim"
  by (simp add: sales_inputs_ok_def wf_df_def example_sales_def example_product_dim_def
      example_customer_dim_def example_store_dim_def columns_def sales_input_columns_def
      the_col_def example_dated)

subsection \<open>The example tables\<close>

lemma example_product_dim_built:
  "create_product_dimension example_products = Inr example_product_dim"
  unfolding create_product_dimension_eq [OF example_products_columns]
  by (simp add: example_products_def example_product_dim_def product_columns_def the_col_def
      upto_1_3)

lemma example_duplicate_products_columns:
  "set product_columns \<subseteq> set (columns example_duplicate_products)"
  by (simp add: example_duplicate_products_def product_columns_def columns_def)

lemma example_duplicate_dim_built:
  "create_product_dimension example_duplicate_products = Inr example_duplicate_dim"
  unfolding create_product_dimension_eq [OF example_duplicate_products_columns]
  by (simp add: example_duplicate_products_def example_duplicate_dim_def product_columns_def
      the_col_def upto_1_3)

lemma example_dims_wf:
  "wf_df example_product_dim" "wf_df example_customer_dim" "wf_df example_store_dim"
  "wf_df example_duplicate_dim"
  by (simp_all add: wf_df_def columns_def example_product_dim_def example_customer_dim_def
      example_store_dim_def example_duplicate_dim_def product_columns_def customer_columns_def
      store_columns_def)

lemma example_sales_duplicate_ok:
  "sales_inputs_ok example_sales example_duplicate_dim example_customer_dim example_store_dim"
  by (simp add: sales_inputs_ok_def wf_df_def example_sales_def example_duplicate_dim_def
      example_customer_dim_def example_store_dim_def columns_def sales_input_columns_def
      the_col_def example_dated)

lemma example_performance_built:
  assumes "set [''product_id'', ''product_key''] \<subseteq> set (columns product_dim)"
  shows "\<exists>out. create_performance_fact example_performance product_dim date_dim = Inr out"
proof -
  have g: "get_col example_performance ''year'' = Inr [IntC 2022, IntC 2023]"
    "get_col example_performance ''month'' = Inr [IntC 3, IntC 12]"
    "get_col example_performance ''product_id'' = Inr [StrC ''P2'', StrC ''P9'']"
    "nrows example_performance = 2"
    by (simp_all add: get_col_def example_performance_def)
  have a: "astype_int (map (\<lambda>(y, m). StrC (year_month_key y m))
             (zip [IntC 2022, IntC 2023] [IntC 3, IntC 12]))
           = Inr [IntC (the_int (IntC 2022) * 10000 + the_int (IntC 3) * 100 + 1),
                  IntC (the_int (IntC 2023) * 10000 + the_int (IntC 12) * 100 + 1)]"
    by (simp add: astype_int_def astype_int_year_month four_digit_year_def calendar_month_def)
  have c: "set performance_fact_columns - {''date_key'', ''product_key''}
             \<subseteq> set (columns example_performance)"
    by (simp add: performance_fact_columns_def example_performance_def columns_def)
  have d: "get_col product_dim ''product_id'' = Inr (the_col product_dim ''product_id'')"
    "get_col product_dim ''product_key'' = Inr (the_col product_dim ''product_key'')"
    using assms by (simp_all add: get_col_the_col)
  show ?thesis
    by (rule create_performance_fact_ok [OF g(1,2) a _ _ d g(3) _ c]) (simp_all add: g(4))
qed

lemma distinct_key_range: "distinct (map IntC [1 .. n])"
  by (simp add: distinct_map inj_on_def)


subsection \<open>Date keys of the sales fact and of the date dimension\<close>

lemma date_dimension_built: "create_date_dimension = Inr date_dimension"
  by (simp add: date_dimension_def create_date_dimension_eq Let_def)

lemma date_dimension_keys:
  "the_col date_dimension ''date_key''
     = map (\<lambda>d. IntC (date_key_of d)) (date_range start_date end_date)"
  by (simp add: date_dimension_def create_date_dimension_eq Let_def the_col_def)

lemma date_less_linear: "a \<noteq> b \<Longrightarrow> date_less a b \<or> date_less b a"
  by (cases a; cases b) (auto simp: date_less_def)

lemma date_key_inj:
  assumes "valid_date a" and "valid_date b" and "date_key_of a = date_key_of b"
  shows "a = b"
proof (rule ccontr)
  assume "a \<noteq> b"
  then have "date_less a b \<or> date_less b a" by (rule date_less_linear)
  then show False
    using date_key_mono [OF assms(1,2)] date_key_mono [OF assms(2,1)] assms(3) by auto
qed

lemma valid_end_date: "valid_date end_date"
  by (simp add: end_date_def valid_date_def mk_date_def days_in_month_def)

lemma date_key_in_dimension:
  assumes "valid_date d"
  shows "IntC (date_key_of d) \<in> set (the_col date_dimension ''date_key'') \<longleftrightarrow> in_calendar d"
proof
  assume "IntC (date_key_of d) \<in> set (the_col date_dimension ''date_key'')"
  then obtain x where x: "x \<in> set (date_range start_date end_date)"
    and k: "date_key_of x = date_key_of d"
    by (auto simp: date_dimension_keys)
  from x have v: "valid_date x" "date_le start_date x" "date_le x end_date"
    by (simp_all add: date_range_set [OF valid_start_date])
  have "x = d" using date_key_inj [OF v(1) assms k] .
  then show "in_calendar d" using v by (simp add: in_calendar_def)
next
  assume "in_calendar d"
  then have "d \<in> set (date_range start_date end_date)"
    using assms by (simp add: date_range_set [OF valid_start_date] in_calendar_def)
  then show "IntC (date_key_of d) \<in> set (the_col date_dimension ''date_key'')"
    by (simp add: date_dimension_keys)
qed

lemma date_key_of_bounds:
  "date_key_of start_date = 20220101" "date_key_of end_date = 20231231"
  by (simp_all add: date_key_of_def start_date_def end_date_def mk_date_def)

lemma date_key_in_range:
  assumes "valid_date d"
  shows "in_calendar d \<Longrightarrow> 20220101 \<le> date_key_of d \<and> date_key_of d \<le> 20231231"
    and "date_less d start_date \<Longrightarrow> date_key_of d < 20220101"
    and "date_less end_date d \<Longrightarrow> 20231231 < date_key_of d"
proof -
  show "in_calendar d \<Longrightarrow> 20220101 \<le> date_key_of d \<and> date_key_of d \<le> 20231231"
    using date_key_mono [OF valid_start_date assms] date_key_mono [OF assms valid_end_date]
    by (auto simp: in_calendar_def date_le_less date_key_of_bounds)
  show "date_less d start_date \<Longrightarrow> date_key_of d < 20220101"
    using date_key_mono [OF assms valid_start_date] by (simp add: date_key_of_bounds)
  show "date_less end_date d \<Longrightarrow> 20231231 < date_key_of d"
    using date_key_mono [OF valid_end_date assms] by (simp add: date_key_of_bounds)
qed

lemma not_in_calendar:
  "\<not> in_calendar d \<longleftrightarrow> date_less d start_date \<or> date_less end_date d"
  by (cases d) (auto simp: in_calendar_def date_le_def date_less_def)

lemma sales_date_keys:
  assumes "sales_inputs_ok sales_df product_dim customer_dim store_dim"
    and "create_sales_fact sales_df product_dim customer_dim store_dim date_dim = Inr out"
  shows "get_col out ''date_key''
     = Inr (map (\<lambda>c. IntC (date_key_of (the_date c))) (the_col sales_df ''transaction_date''))"
proof -
  from assms(1) have dt: "list_all dated (the_col sales_df ''transaction_date'')"
    by (simp add: sales_inputs_ok_def)
  from create_sales_fact_Inr [OF assms(2)] obtain td dates dk where
    td: "get_col sales_df ''transaction_date'' = Inr td"
    and d: "to_datetime td = Inr dates" and k: "date_key_column dates = Inr dk"
    and g: "get_col out ''date_key'' = Inr dk"
    by blast
  have e: "the_col sales_df ''transaction_date'' = td" using td by (rule get_col_Inr_the_col)
  have "dates = map (\<lambda>c. DateC (the_date c)) td"
    using d to_datetime_dated [OF dt] by (simp add: e)
  then have "dk = map (\<lambda>c. IntC (date_key_of (the_date c))) td"
    using k date_key_column_dated [OF dt] by (simp add: e)
  then show ?thesis by (simp add: g e)
qed

lemma start_before_end: "date_less start_date end_date"
  by (simp add: date_less_def start_date_def end_date_def mk_date_def)

lemma sales_date_key_row:
  assumes "create_sales_fact sales_df product_dim customer_dim store_dim date_dim = Inr out"
    and "i < nrows sales_df" and "dated (the_col sales_df ''transaction_date'' ! i)"
  shows "\<exists>dk. get_col out ''date_key'' = Inr dk
           \<and> dk ! i = IntC (date_key_of (the_date (the_col sales_df ''transaction_date'' ! i)))"
proof -
  from create_sales_fact_Inr [OF assms(1)] obtain td dates dk where
    td: "get_col sales_df ''transaction_date'' = Inr td"
    and d: "to_datetime td = Inr dates" and k: "date_key_column dates = Inr dk"
    and g: "get_col out ''date_key'' = Inr dk" and l: "length dk = nrows sales_df"
    by blast
  have e: "the_col sales_df ''transaction_date'' = td" using td by (rule get_col_Inr_the_col)
  from k obtain strs where s: "dt_strftime dates = Inr strs" and a: "astype_int strs = Inr dk"
    by (auto simp: date_key_column_def and_then_eq_Inr)
  have ls: "length strs = length dates" "length dk = length strs" "length dates = length td"
    using traverse_length [OF s [unfolded dt_strftime_def]]
      traverse_length [OF a [unfolded astype_int_def]] to_datetime_length [OF d] by simp_all
  then have i: "i < length td" "i < length dates" "i < length strs" using assms(2) l by simp_all
  let ?d = "the_date (td ! i)"
  have v: "dated (td ! i)" using assms(3) by (simp add: e)
  have "to_datetime_cell (td ! i) = Inr (dates ! i)"
    using traverse_nth [OF d [unfolded to_datetime_def] i(1)] .
  then have 1: "dates ! i = DateC ?d" using dated_date(1) [OF v] by simp
  have "dt_strftime_cell (dates ! i) = Inr (strs ! i)"
    using traverse_nth [OF s [unfolded dt_strftime_def] i(2)] .
  then have 2: "strs ! i = StrC (strftime_Ymd ?d)" by (simp add: 1 dt_strftime_cell_def)
  have "astype_int_cell (strs ! i) = Inr (dk ! i)"
    using traverse_nth [OF a [unfolded astype_int_def] i(3)] .
  then have "dk ! i = IntC (date_key_of ?d)"
    using astype_int_strftime [OF dated_date(2,5,6) [OF v]] by (simp add: 2)
  then show ?thesis using g by (simp add: e)
qed

subsection \<open>Writing and reading files\<close>

lemma length_row: "length (row df i) = length (columns df)"
  by (simp add: row_def columns_def)

lemma frame_of_csv_of:
  assumes "columns df \<noteq> []" and "distinct (columns df)" and "[] \<notin> set (columns df)"
  shows "\<exists>df'. frame_of (csv_of df False) = Inr df' \<and> shape df' = shape df"
proof -
  let ?f = "csv_of df False"
  have h: "header ?f = columns df" and n: "length (records ?f) = nrows df"
    and r: "list_all (\<lambda>r. length r = length (header ?f)) (records ?f)"
    by (simp_all add: csv_of_def list_all_iff length_row)
  have "map (\<lambda>j. columns df ! j) [0 ..< length (columns df)] = columns df"
    by (rule map_nth)
  then have "columns \<lparr>nrows = length (records ?f),
                cols = map (\<lambda>j. (header ?f ! j, map (\<lambda>r. r ! j) (records ?f)))
                         [0 ..< length (header ?f)]\<rparr> = columns df"
    by (simp add: columns_def comp_def h)
  then show ?thesis
    using assms r by (simp add: frame_of_def h n shape_def)
qed

lemma saved_files:
  "save_star_schema (date_dim, product_dim, customer_dim, store_dim, sales_fact, performance_fact)
       dir fs =
     fs(dir @ ''/dim_date.csv'' \<mapsto> csv_of date_dim False,
        dir @ ''/dim_product.csv'' \<mapsto> csv_of product_dim False,
        dir @ ''/dim_customer.csv'' \<mapsto> csv_of customer_dim False,
        dir @ ''/dim_store.csv'' \<mapsto> csv_of store_dim False,
        dir @ ''/fact_sales.csv'' \<mapsto> csv_of sales_fact False,
        dir @ ''/fact_performance.csv'' \<mapsto> csv_of performance_fact False)"
  by (simp add: save_star_schema_def to_csv_def)

lemma read_saved:
  fixes tables :: star_schema
  assumes "tables = (date_dim, product_dim, customer_dim, store_dim, sales_fact, performance_fact)"
  shows "read_csv (dir @ ''/dim_date.csv'') (save_star_schema tables dir fs)
           = frame_of (csv_of date_dim False)"
    and "read_csv (dir @ ''/dim_product.csv'') (save_star_schema tables dir fs)
           = frame_of (csv_of product_dim False)"
    and "read_csv (dir @ ''/dim_customer.csv'') (save_star_schema tables dir fs)
           = frame_of (csv_of customer_dim False)"
    and "read_csv (dir @ ''/dim_store.csv'') (save_star_schema tables dir fs)
           = frame_of (csv_of store_dim False)"
    and "read_csv (dir @ ''/fact_sales.csv'') (save_star_schema tables dir fs)
           = frame_of (csv_of sales_fact False)"
    and "read_csv (dir @ ''/fact_performance.csv'') (save_star_schema tables dir fs)
           = frame_of (csv_of performance_fact False)"
  by (simp_all add: assms saved_files read_csv_def)

lemma save_twice:
  "save_star_schema tables dir (save_star_schema tables dir fs) = save_star_schema tables dir fs"
  by (cases tables) (simp add: saved_files fun_eq_iff)

lemma saved_artifacts:
  "map (save_star_schema tables dir fs) (output_paths dir)
     = map (save_star_schema tables dir fs') (output_paths dir)"
  by (cases tables) (simp add: saved_files output_paths_def)

lemma load_processed_data_cong:
  assumes "\<forall>p\<in>set input_paths. fs p = fs' p"
  shows "load_processed_data input_dir fs = load_processed_data input_dir fs'"
  using assms by (simp add: load_processed_data_def read_csv_def input_paths_def)

lemma load_after_save:
  "load_processed_data input_dir (save_star_schema tables output_dir fs)
     = load_processed_data input_dir fs"
  by (rule load_processed_data_cong)
    (cases tables, simp add: saved_files input_paths_def input_dir_def output_dir_def)

subsection \<open>The tables of a build\<close>

lemma keyed_columns:
  assumes "and_then (select df cs) (add_surrogate_key k) = Inr d" and "k \<notin> set cs"
  shows "columns d = k # cs" and "nrows d = nrows df"
proof -
  note s = keyed_select_Inr [OF assms]
  show "columns d = k # cs" "nrows d = nrows df"
    using keyed_frame(1,2) [OF s(1) assms(2) s(2)] by simp_all
qed

lemma date_dimension_shape:
  "shape date_dimension =
     (730, [''date_id'', ''date'', ''day'', ''month'', ''quarter'', ''year'', ''day_of_week'',
            ''day_name'', ''month_name'', ''is_weekend'', ''date_key''])"
  by (simp add: date_dimension_def create_date_dimension_eq Let_def shape_def columns_def
      date_range_length)

lemma build_star_schema_Inr:
  assumes "build_star_schema (products_df, customers_df, stores_df, sales_df, performance_df)
             = Inr tables"
  shows "\<exists>product_dim customer_dim store_dim sales_fact performance_fact.
           tables = (date_dimension, product_dim, customer_dim, store_dim, sales_fact,
                     performance_fact)
         \<and> create_product_dimension products_df = Inr product_dim
         \<and> create_customer_dimension customers_df = Inr customer_dim
         \<and> create_store_dimension stores_df = Inr store_dim
         \<and> create_sales_fact sales_df product_dim customer_dim store_dim date_dimension
             = Inr sales_fact
         \<and> create_performance_fact performance_df product_dim date_dimension
             = Inr performance_fact"
  using assms unfolding build_star_schema_def date_dimension_built
  by (auto simp: and_then_eq_Inr)

lemma built_shapes:
  assumes "build_star_schema (products_df, customers_df, stores_df, sales_df, performance_df)
             = Inr tables"
  shows "shapes tables =
     [(730, [''date_id'', ''date'', ''day'', ''month'', ''quarter'', ''year'', ''day_of_week'',
             ''day_name'', ''month_name'', ''is_weekend'', ''date_key'']),
      (nrows products_df, ''product_key'' # product_columns),
      (nrows customers_df, ''customer_key'' # customer_columns),
      (nrows stores_df, ''store_key'' # store_columns),
      (nrows sales_df, ''sales_key'' # sales_fact_columns),
      (nrows performance_df, ''performance_key'' # performance_fact_columns)]"
proof -
  from build_star_schema_Inr [OF assms]
  obtain product_dim customer_dim store_dim sales_fact performance_fact where
    t: "tables = (date_dimension, product_dim, customer_dim, store_dim, sales_fact, performance_fact)"
    and p: "create_product_dimension products_df = Inr product_dim"
    and c: "create_customer_dimension customers_df = Inr customer_dim"
    and s: "create_store_dimension stores_df = Inr store_dim"
    and f: "create_sales_fact sales_df product_dim customer_dim store_dim date_dimension
             = Inr sales_fact"
    and g: "create_performance_fact performance_df product_dim date_dimension
             = Inr performance_fact"
    by blast
  note kp = keyed_columns [OF p [unfolded create_product_dimension_def] product_key_fresh]
  note kc = keyed_columns [OF c [unfolded create_customer_dimension_def] customer_key_fresh]
  note ks = keyed_columns [OF s [unfolded create_store_dimension_def] store_key_fresh]
  from create_sales_fact_Inr [OF f] have kf: "nrows sales_fact = nrows sales_df"
    "columns sales_fact = ''sales_key'' # sales_fact_columns" by blast+
  from create_performance_fact_Inr [OF g] have kg: "nrows performance_fact = nrows performance_df"
    "columns performance_fact = ''performance_key'' # performance_fact_columns" by blast+
  show ?thesis
    using date_dimension_shape by (simp add: t shapes_def shape_def kp kc ks kf kg)
qed

lemma shape_read_back:
  assumes "snd (shape df) \<noteq> []" and "distinct (snd (shape df))" and "[] \<notin> set (snd (shape df))"
  shows "\<exists>df'. frame_of (csv_of df False) = Inr df' \<and> shape df' = shape df"
  using assms by (intro frame_of_csv_of) (simp_all add: shape_def)

lemma load_saved:
  fixes tables :: star_schema
  assumes "list_all (\<lambda>s. snd s \<noteq> [] \<and> distinct (snd s) \<and> [] \<notin> set (snd s)) (shapes tables)"
  shows "\<exists>loaded. load_star_schema_data dir (save_star_schema tables dir fs) = Inr loaded
           \<and> shapes loaded = shapes tables"
proof -
  obtain a b c d e f where t: "tables = (a, b, c, d, e, f)" by (cases tables)
  from assms obtain a' b' c' d' e' f' where
    "frame_of (csv_of a False) = Inr a'" "shape a' = shape a"
    "frame_of (csv_of b False) = Inr b'" "shape b' = shape b"
    "frame_of (csv_of c False) = Inr c'" "shape c' = shape c"
    "frame_of (csv_of d False) = Inr d'" "shape d' = shape d"
    "frame_of (csv_of e False) = Inr e'" "shape e' = shape e"
    "frame_of (csv_of f False) = Inr f'" "shape f' = shape f"
    unfolding t shapes_def
    using shape_read_back [of a] shape_read_back [of b] shape_read_back [of c]
      shape_read_back [of d] shape_read_back [of e] shape_read_back [of f]
    by auto
  then show ?thesis
    by (simp add: load_star_schema_data_def read_saved [OF refl] t shapes_def)
qed

lemma built_loads:
  assumes "build_star_schema inputs = Inr tables"
  shows "\<exists>loaded. load_star_schema_data dir (save_star_schema tables dir fs) = Inr loaded
           \<and> shapes loaded = shapes tables"
proof -
  obtain a b c d e where i: "inputs = (a, b, c, d, e)" by (cases inputs)
  show ?thesis
    by (rule load_saved)
      (simp add: built_shapes [OF assms [unfolded i]] product_columns_def customer_columns_def
        store_columns_def sales_fact_columns_def performance_fact_columns_def)
qed

subsection \<open>A run on the example tables\<close>

lemma example_customer_dim_built:
  "create_customer_dimension example_customers = Inr example_customer_dim"
  unfolding create_customer_dimension_eq [OF example_customers_columns]
  by (simp add: example_customers_def example_customer_dim_def customer_columns_def the_col_def
      upto_1_2)

lemma example_store_dim_built:
  "create_store_dimension example_stores = Inr example_store_dim"
  unfolding create_store_dimension_eq [OF example_stores_columns]
  by (simp add: example_stores_def example_store_dim_def store_columns_def the_col_def upto_1_2)

lemma example_schema_built:
  "\<exists>tables. build_star_schema (example_products, example_customers, example_stores,
       example_sales, example_performance) = Inr tables"
proof -
  obtain sf where sf: "create_sales_fact example_sales example_product_dim example_customer_dim
      example_store_dim date_dimension = Inr sf"
    using create_sales_fact_ok [OF example_sales_ok] by blast
  have "set [''product_id'', ''product_key''] \<subseteq> set (columns example_product_dim)"
    by (simp add: example_product_dim_def columns_def)
  then obtain pf where pf: "create_performance_fact example_performance example_product_dim
      date_dimension = Inr pf"
    using example_performance_built by blast
  show ?thesis
    by (simp add: build_star_schema_def date_dimension_built example_product_dim_built
        example_customer_dim_built example_store_dim_built sf pf)
qed

lemma example_files:
  "frame_of (csv_of example_products False) = Inr example_products"
  "frame_of (csv_of example_customers False) = Inr example_customers"
  "frame_of (csv_of example_stores False) = Inr example_stores"
  "frame_of (csv_of example_sales False) = Inr example_sales"
  "frame_of (csv_of example_performance False) = Inr example_performance"
  by code_simp+

lemma example_loaded:
  "load_processed_data input_dir example_fs
     = Inr (example_products, example_customers, example_stores, example_sales,
            example_performance)"
  by (simp add: load_processed_data_def read_csv_def example_fs_def example_files)

lemma example_main: "\<exists>out. main example_fs = Inr out"
  using example_schema_built by (auto simp: main_def example_loaded)

text \<open>
  Claim C1. Each entity dimension build (products, customers, stores), on a table that
  has the columns the build selects, returns a table with as many rows as the input,
  whose first column is the surrogate key, whose surrogate key column is 1, 2, ..., N
  down the rows, and whose other columns are the selected input columns unchanged (so
  the rows keep their order).
\<close>

theorem entity_dimension_dense_keys:
  "(set product_columns \<subseteq> set (columns products_df) \<longrightarrow>
      (\<exists>dim. create_product_dimension products_df = Inr dim
         \<and> nrows dim = nrows products_df
         \<and> columns dim = ''product_key'' # product_columns
         \<and> get_col dim ''product_key'' = Inr (map IntC [1 .. int (nrows products_df)])
         \<and> (\<forall>c\<in>set product_columns. get_col dim c = get_col products_df c)))
   \<and> (set customer_columns \<subseteq> set (columns customers_df) \<longrightarrow>
      (\<exists>dim. create_customer_dimension customers_df = Inr dim
         \<and> nrows dim = nrows customers_df
         \<and> columns dim = ''customer_key'' # customer_columns
         \<and> get_col dim ''customer_key'' = Inr (map IntC [1 .. int (nrows customers_df)])
         \<and> (\<forall>c\<in>set customer_columns. get_col dim c = get_col customers_df c)))
   \<and> (set store_columns \<subseteq> set (columns stores_df) \<longrightarrow>
      (\<exists>dim. create_store_dimension stores_df = Inr dim
         \<and> nrows dim = nrows stores_df
         \<and> columns dim = ''store_key'' # store_columns
         \<and> get_col dim ''store_key'' = Inr (map IntC [1 .. int (nrows stores_df)])
         \<and> (\<forall>c\<in>set store_columns. get_col dim c = get_col stores_df c)))"
proof (intro conjI impI)
  assume h: "set product_columns \<subseteq> set (columns products_df)"
  show "\<exists>dim. create_product_dimension products_df = Inr dim
         \<and> nrows dim = nrows products_df
         \<and> columns dim = ''product_key'' # product_columns
         \<and> get_col dim ''product_key'' = Inr (map IntC [1 .. int (nrows products_df)])
         \<and> (\<forall>c\<in>set product_columns. get_col dim c = get_col products_df c)"
    using keyed_frame [OF h product_key_fresh refl] create_product_dimension_eq [OF h]
    by simp
next
  assume h: "set customer_columns \<subseteq> set (columns customers_df)"
  show "\<exists>dim. create_customer_dimension customers_df = Inr dim
         \<and> nrows dim = nrows customers_df
         \<and> columns dim = ''customer_key'' # customer_columns
         \<and> get_col dim ''customer_key'' = Inr (map IntC [1 .. int (nrows customers_df)])
         \<and> (\<forall>c\<in>set customer_columns. get_col dim c = get_col customers_df c)"
    using keyed_frame [OF h customer_key_fresh refl] create_customer_dimension_eq [OF h]
    by simp
next
  assume h: "set store_columns \<subseteq> set (columns stores_df)"
  show "\<exists>dim. create_store_dimension stores_df = Inr dim
         \<and> nrows dim = nrows stores_df
         \<and> columns dim = ''store_key'' # store_columns
         \<and> get_col dim ''store_key'' = Inr (map IntC [1 .. int (nrows stores_df)])
         \<and> (\<forall>c\<in>set store_columns. get_col dim c = get_col stores_df c)"
    using keyed_frame [OF h store_key_fresh refl] create_store_dimension_eq [OF h]
    by simp
qed

theorem entity_dimension_dense_keys_witness:
  "(\<exists>dim. create_product_dimension example_products = Inr dim
      \<and> nrows dim = 3
      \<and> columns dim = ''product_key'' # product_columns
      \<and> get_col dim ''product_key'' = Inr [IntC 1, IntC 2, IntC 3]
      \<and> (\<forall>c\<in>set product_columns. get_col dim c = get_col example_products c))
   \<and> (\<exists>dim. create_customer_dimension example_customers = Inr dim
      \<and> nrows dim = 2
      \<and> columns dim = ''customer_key'' # customer_columns
      \<and> get_col dim ''customer_key'' = Inr [IntC 1, IntC 2]
      \<and> (\<forall>c\<in>set customer_columns. get_col dim c = get_col example_customers c))
   \<and> (\<exists>dim. create_store_dimension example_stores = Inr dim
      \<and> nrows dim = 2
      \<and> columns dim = ''store_key'' # store_columns
      \<and> get_col dim ''store_key'' = Inr [IntC 1, IntC 2]
      \<and> (\<forall>c\<in>set store_columns. get_col dim c = get_col example_stores c))"
proof -
  have n: "nrows example_products = 3" "nrows example_customers = 2" "nrows example_stores = 2"
    by (simp_all add: example_products_def example_customers_def example_stores_def)
  show ?thesis
    using entity_dimension_dense_keys [of example_products example_customers example_stores]
      example_products_columns example_customers_columns example_stores_columns
    by (simp add: n upto_1_2 upto_1_3)
qed




text \<open>
  Claim C3 holds in this form. In the sales fact that the build returns, the date key of
  a row that has a transaction date is the number \<^verbatim>\<open>YYYYMMDD\<close> of the row's own
  transaction date: it is never null and never the key of another day. The keys of the
  date dimension lie between 20220101 and 20231231, both among them. When the date of the
  row lies in 2022-01-01 .. 2023-12-31, the date key is one of the keys of the date
  dimension and lies in that range; when it lies outside, the date key is below 20220101
  or above 20231231 and is no key of the date dimension. The build returns on a
  well-formed sales table that has the columns the build reads and a date in every row.
\<close>

theorem sales_date_key_is_own_date:
  "(\<forall>out i.
      create_sales_fact sales_df product_dim customer_dim store_dim date_dimension = Inr out
      \<and> i < nrows sales_df \<and> dated (the_col sales_df ''transaction_date'' ! i)
      \<longrightarrow> (\<exists>dk. get_col out ''date_key'' = Inr dk
             \<and> dk ! i = IntC (date_key_of (the_date (the_col sales_df ''transaction_date'' ! i)))
             \<and> (in_calendar (the_date (the_col sales_df ''transaction_date'' ! i))
                \<longrightarrow> dk ! i \<in> set (the_col date_dimension ''date_key'')
                  \<and> dk ! i \<in> IntC ` {20220101 .. 20231231})
             \<and> (\<not> in_calendar (the_date (the_col sales_df ''transaction_date'' ! i))
                \<longrightarrow> dk ! i \<notin> set (the_col date_dimension ''date_key'')
                  \<and> dk ! i \<notin> IntC ` {20220101 .. 20231231})))
   \<and> (sales_inputs_ok sales_df product_dim customer_dim store_dim
      \<longrightarrow> (\<exists>out. create_sales_fact sales_df product_dim customer_dim store_dim date_dimension
                  = Inr out))
   \<and> set (the_col date_dimension ''date_key'') \<subseteq> IntC ` {20220101 .. 20231231}
   \<and> IntC 20220101 \<in> set (the_col date_dimension ''date_key'')
   \<and> IntC 20231231 \<in> set (the_col date_dimension ''date_key'')"
proof (intro conjI allI impI)
  fix out i
  let ?c = "the_col sales_df ''transaction_date'' ! i"
  assume h: "create_sales_fact sales_df product_dim customer_dim store_dim date_dimension = Inr out
      \<and> i < nrows sales_df \<and> dated ?c"
  then have v: "valid_date (the_date ?c)" using dated_date(2) by blast
  from h sales_date_key_row [of sales_df product_dim customer_dim store_dim date_dimension out i]
  obtain dk where g: "get_col out ''date_key'' = Inr dk"
    and n: "dk ! i = IntC (date_key_of (the_date ?c))"
    by blast
  have "(in_calendar (the_date ?c)
           \<longrightarrow> dk ! i \<in> set (the_col date_dimension ''date_key'')
             \<and> dk ! i \<in> IntC ` {20220101 .. 20231231})
      \<and> (\<not> in_calendar (the_date ?c)
           \<longrightarrow> dk ! i \<notin> set (the_col date_dimension ''date_key'')
             \<and> dk ! i \<notin> IntC ` {20220101 .. 20231231})"
    unfolding n
    using date_key_in_dimension [OF v] date_key_in_range [OF v] not_in_calendar [of "the_date ?c"]
    by auto
  with g n show "\<exists>dk. get_col out ''date_key'' = Inr dk
             \<and> dk ! i = IntC (date_key_of (the_date ?c))
             \<and> (in_calendar (the_date ?c)
                \<longrightarrow> dk ! i \<in> set (the_col date_dimension ''date_key'')
                  \<and> dk ! i \<in> IntC ` {20220101 .. 20231231})
             \<and> (\<not> in_calendar (the_date ?c)
                \<longrightarrow> dk ! i \<notin> set (the_col date_dimension ''date_key'')
                  \<and> dk ! i \<notin> IntC ` {20220101 .. 20231231})"
    by blast
next
  assume "sales_inputs_ok sales_df product_dim customer_dim store_dim"
  then show "\<exists>out. create_sales_fact sales_df product_dim customer_dim store_dim date_dimension
      = Inr out"
    by (rule create_sales_fact_ok)
next
  show "set (the_col date_dimension ''date_key'') \<subseteq> IntC ` {20220101 .. 20231231}"
  proof
    fix k assume "k \<in> set (the_col date_dimension ''date_key'')"
    then obtain x where x: "x \<in> set (date_range start_date end_date)"
      and k: "k = IntC (date_key_of x)"
      by (auto simp: date_dimension_keys)
    from x have "valid_date x" "in_calendar x"
      by (simp_all add: date_range_set [OF valid_start_date] in_calendar_def)
    then show "k \<in> IntC ` {20220101 .. 20231231}"
      using date_key_in_range(1) k by simp
  qed
next
  show "IntC 20220101 \<in> set (the_col date_dimension ''date_key'')"
    using date_key_in_dimension [OF valid_start_date] start_before_end
    by (simp add: date_key_of_bounds in_calendar_def date_le_less)
next
  show "IntC 20231231 \<in> set (the_col date_dimension ''date_key'')"
    using date_key_in_dimension [OF valid_end_date] start_before_end
    by (simp add: date_key_of_bounds in_calendar_def date_le_less)
qed

theorem sales_date_key_is_own_date_witness:
  "\<exists>out dk.
     create_sales_fact example_sales example_product_dim example_customer_dim example_store_dim
       date_dimension = Inr out
   \<and> get_col out ''date_key'' = Inr dk
   \<and> dk ! 0 = IntC 20220315 \<and> dk ! 0 \<in> set (the_col date_dimension ''date_key'')
   \<and> dk ! 1 = IntC 20240101 \<and> dk ! 1 \<notin> set (the_col date_dimension ''date_key'')"
proof -
  note t = sales_date_key_is_own_date [of example_sales example_product_dim example_customer_dim
      example_store_dim]
  have e: "the_col example_sales ''transaction_date'' = [StrC ''2022-03-15'', StrC ''2024-01-01'']"
    "nrows example_sales = 2"
    by (simp_all add: the_col_def example_sales_def)
  have c: "in_calendar (mk_date 2022 3 15)" "\<not> in_calendar (mk_date 2024 1 1)"
    by (simp_all add: in_calendar_def date_le_def start_date_def end_date_def mk_date_def)
  have k: "date_key_of (mk_date 2022 3 15) = 20220315" "date_key_of (mk_date 2024 1 1) = 20240101"
    by (simp_all add: date_key_of_def mk_date_def)
  from t [THEN conjunct2, THEN conjunct1] example_sales_ok obtain out where
    o: "create_sales_fact example_sales example_product_dim example_customer_dim example_store_dim
       date_dimension = Inr out"
    by blast
  from t [THEN conjunct1, rule_format, of out 0] o
  obtain dk where g: "get_col out ''date_key'' = Inr dk"
    and r0: "dk ! 0 = IntC 20220315" "dk ! 0 \<in> set (the_col date_dimension ''date_key'')"
    by (auto simp: e example_dated example_the_date c k)
  from t [THEN conjunct1, rule_format, of out 1] o g
  have r1: "dk ! 1 = IntC 20240101" "dk ! 1 \<notin> set (the_col date_dimension ''date_key'')"
    by (auto simp: e example_dated example_the_date c k)
  show ?thesis
    by (intro exI conjI) (rule o g r0 r1)+
qed

text \<open>
  Claim C3 as it is worded does not hold: the build computes the date key from the
  transaction date alone and never reads the date dimension, so a row dated outside the
  range of the dimension keeps the key of its own date. The second example sales row is
  dated 2024-01-01, the day after the last day of the date dimension (the sample data
  generator draws transaction dates from 2022-01-01 to 2024-01-01); its date key is
  20240101, which is not null, is above the largest key 20231231 and is no key of the
  date dimension.
\<close>

theorem out_of_range_date_keeps_its_key:
  "the_col example_sales ''transaction_date'' ! 1 = StrC ''2024-01-01''
   \<and> \<not> in_calendar (mk_date 2024 1 1)
   \<and> create_date_dimension = Inr date_dimension
   \<and> column_of (create_sales_fact example_sales example_product_dim example_customer_dim
        example_store_dim date_dimension) ''date_key''
       = Inr [IntC 20220315, IntC 20240101]
   \<and> IntC 20240101 \<noteq> NaN
   \<and> IntC 20231231 \<in> set (the_col date_dimension ''date_key'')
   \<and> IntC 20240101 \<notin> set (the_col date_dimension ''date_key'')"
proof -
  have e: "the_col example_sales ''transaction_date'' = [StrC ''2022-03-15'', StrC ''2024-01-01'']"
    by (simp add: the_col_def example_sales_def)
  have c: "\<not> in_calendar (mk_date 2024 1 1)"
    by (simp add: in_calendar_def date_le_def start_date_def end_date_def mk_date_def)
  have v: "valid_date (mk_date 2024 1 1)"
    by (simp add: valid_date_def mk_date_def days_in_month_def)
  have k: "date_key_of (mk_date 2022 3 15) = 20220315" "date_key_of (mk_date 2024 1 1) = 20240101"
    by (simp_all add: date_key_of_def mk_date_def)
  from create_sales_fact_ok [OF example_sales_ok] obtain out where
    o: "create_sales_fact example_sales example_product_dim example_customer_dim example_store_dim
       date_dimension = Inr out" ..
  have "column_of (create_sales_fact example_sales example_product_dim example_customer_dim
        example_store_dim date_dimension) ''date_key'' = Inr [IntC 20220315, IntC 20240101]"
    using sales_date_keys [OF example_sales_ok o]
    by (simp add: column_of_def o e example_the_date k)
  moreover have "IntC 20240101 \<notin> set (the_col date_dimension ''date_key'')"
    using date_key_in_dimension [OF v] c by (simp add: k)
  moreover have "IntC 20231231 \<in> set (the_col date_dimension ''date_key'')"
    using date_key_in_dimension [OF valid_end_date] start_before_end
    by (simp add: date_key_of_bounds in_calendar_def date_le_less)
  ultimately show ?thesis using e c date_dimension_built by simp
qed

text \<open>
  Claim C4. In the sales fact that the build returns, a row whose product id (customer
  id, store id) occurs in exactly one row of the product (customer, store) dimension has
  the surrogate key of that dimension row as its product key (customer key, store key).
  The build returns on a well-formed sales table that has the columns the build reads
  and a date in every row. With the dimension built from the products P1, P2, P3, a
  sales row of product P2 has product key 2.
\<close>

theorem unique_natural_key_resolves:
  assumes "wf_df product_dim" and "wf_df customer_dim" and "wf_df store_dim"
  shows
    "(\<forall>out i. create_sales_fact sales_df product_dim customer_dim store_dim date_dim = Inr out
         \<and> i < nrows sales_df
       \<longrightarrow> (\<exists>pk ck sk.
              get_col out ''product_key'' = Inr pk \<and> get_col out ''customer_key'' = Inr ck
            \<and> get_col out ''store_key'' = Inr sk
            \<and> (\<forall>j. occurs_once (the_col sales_df ''product_id'' ! i)
                       (the_col product_dim ''product_id'') j
                   \<longrightarrow> pk ! i = the_col product_dim ''product_key'' ! j)
            \<and> (\<forall>j. occurs_once (the_col sales_df ''customer_id'' ! i)
                       (the_col customer_dim ''customer_id'') j
                   \<longrightarrow> ck ! i = the_col customer_dim ''customer_key'' ! j)
            \<and> (\<forall>j. occurs_once (the_col sales_df ''store_id'' ! i)
                       (the_col store_dim ''store_id'') j
                   \<longrightarrow> sk ! i = the_col store_dim ''store_key'' ! j)))
     \<and> (sales_inputs_ok sales_df product_dim customer_dim store_dim
       \<longrightarrow> (\<exists>out. create_sales_fact sales_df product_dim customer_dim store_dim date_dim
                   = Inr out))"
proof (intro conjI allI impI)
  fix out i
  assume h: "create_sales_fact sales_df product_dim customer_dim store_dim date_dim = Inr out
         \<and> i < nrows sales_df"
  from create_sales_fact_Inr [OF h [THEN conjunct1]]
  obtain pi pk ci ck si sk pids cids sids where
    g: "get_col product_dim ''product_id'' = Inr pi" "get_col product_dim ''product_key'' = Inr pk"
       "get_col customer_dim ''customer_id'' = Inr ci" "get_col customer_dim ''customer_key'' = Inr ck"
       "get_col store_dim ''store_id'' = Inr si" "get_col store_dim ''store_key'' = Inr sk"
       "get_col sales_df ''product_id'' = Inr pids" "get_col sales_df ''customer_id'' = Inr cids"
       "get_col sales_df ''store_id'' = Inr sids"
    and p: "get_col out ''product_key'' = Inr (series_map (dict_zip pi pk) pids)"
    and c: "get_col out ''customer_key'' = Inr (series_map (dict_zip ci ck) cids)"
    and t: "get_col out ''store_key'' = Inr (series_map (dict_zip si sk) sids)"
    and l: "length pids = nrows sales_df" "length cids = nrows sales_df"
      "length sids = nrows sales_df"
    by blast
  note e = g [THEN get_col_Inr_the_col]
  have i: "i < length pids" "i < length cids" "i < length sids" using h l by simp_all
  have "\<forall>j. occurs_once (pids ! i) pi j \<longrightarrow> series_map (dict_zip pi pk) pids ! i = pk ! j"
    using resolve_last [OF assms(1) g(1,2) i(1)] occurs_once_last by blast
  moreover have "\<forall>j. occurs_once (cids ! i) ci j \<longrightarrow> series_map (dict_zip ci ck) cids ! i = ck ! j"
    using resolve_last [OF assms(2) g(3,4) i(2)] occurs_once_last by blast
  moreover have "\<forall>j. occurs_once (sids ! i) si j \<longrightarrow> series_map (dict_zip si sk) sids ! i = sk ! j"
    using resolve_last [OF assms(3) g(5,6) i(3)] occurs_once_last by blast
  ultimately show "\<exists>pk ck sk.
              get_col out ''product_key'' = Inr pk \<and> get_col out ''customer_key'' = Inr ck
            \<and> get_col out ''store_key'' = Inr sk
            \<and> (\<forall>j. occurs_once (the_col sales_df ''product_id'' ! i)
                       (the_col product_dim ''product_id'') j
                   \<longrightarrow> pk ! i = the_col product_dim ''product_key'' ! j)
            \<and> (\<forall>j. occurs_once (the_col sales_df ''customer_id'' ! i)
                       (the_col customer_dim ''customer_id'') j
                   \<longrightarrow> ck ! i = the_col customer_dim ''customer_key'' ! j)
            \<and> (\<forall>j. occurs_once (the_col sales_df ''store_id'' ! i)
                       (the_col store_dim ''store_id'') j
                   \<longrightarrow> sk ! i = the_col store_dim ''store_key'' ! j)"
    unfolding e using p c t by blast
next
  assume "sales_inputs_ok sales_df product_dim customer_dim store_dim"
  then show "\<exists>out. create_sales_fact sales_df product_dim customer_dim store_dim date_dim = Inr out"
    by (rule create_sales_fact_ok)
qed

theorem unique_natural_key_resolves_witness:
  "create_product_dimension example_products = Inr example_product_dim
   \<and> the_col example_product_dim ''product_id'' = [StrC ''P1'', StrC ''P2'', StrC ''P3'']
   \<and> the_col example_product_dim ''product_key'' = [IntC 1, IntC 2, IntC 3]
   \<and> the_col example_sales ''product_id'' ! 0 = StrC ''P2''
   \<and> (\<exists>out pk. create_sales_fact example_sales example_product_dim example_customer_dim
                   example_store_dim no_table = Inr out
         \<and> get_col out ''product_key'' = Inr pk \<and> pk ! 0 = IntC 2)"
proof -
  note t = unique_natural_key_resolves [OF example_dims_wf(1-3), of example_sales no_table]
  have d: "the_col example_product_dim ''product_id'' = [StrC ''P1'', StrC ''P2'', StrC ''P3'']"
    "the_col example_product_dim ''product_key'' = [IntC 1, IntC 2, IntC 3]"
    "the_col example_sales ''product_id'' ! 0 = StrC ''P2''" "nrows example_sales = 2"
    by (simp_all add: the_col_def example_product_dim_def example_sales_def)
  from t [THEN conjunct2] example_sales_ok obtain out where
    o: "create_sales_fact example_sales example_product_dim example_customer_dim
          example_store_dim no_table = Inr out" by blast
  have "occurs_once (the_col example_sales ''product_id'' ! 0)
      (the_col example_product_dim ''product_id'') 1"
    by (simp add: d occurs_once_def)
  with t [THEN conjunct1, rule_format, of out 0] o d(4)
  obtain pk where "get_col out ''product_key'' = Inr pk"
    "pk ! 0 = the_col example_product_dim ''product_key'' ! 1"
    by auto
  then show ?thesis using o d example_product_dim_built by simp
qed

text \<open>
  Claim C5. A performance row whose year is an integer of four digits and whose month is
  an integer from 1 to 12 gets the date key \<open>year * 10000 + month * 100 + 1\<close>, the first
  day of that month as \<^verbatim>\<open>YYYYMMDD\<close>, whenever the build returns; and the build returns
  when every row is such a row and the columns it reads are there.
\<close>

theorem performance_date_key_first_of_month:
  assumes "wf_df performance_df"
  shows
    "(\<forall>out years months i y m.
        create_performance_fact performance_df product_dim date_dim = Inr out
        \<and> get_col performance_df ''year'' = Inr years
        \<and> get_col performance_df ''month'' = Inr months
        \<and> i < nrows performance_df \<and> years ! i = IntC y \<and> months ! i = IntC m
        \<and> 1000 \<le> y \<and> y \<le> 9999 \<and> 1 \<le> m \<and> m \<le> 12
        \<longrightarrow> (\<exists>dk. get_col out ''date_key'' = Inr dk
               \<and> dk ! i = IntC (y * 10000 + m * 100 + 1)))
     \<and> (set [''year'', ''month'', ''product_id'', ''energy_consumption_kwh'', ''failure_rate'',
               ''customer_satisfaction'', ''return_rate'', ''warranty_claims'']
            \<subseteq> set (columns performance_df)
        \<and> set [''product_id'', ''product_key''] \<subseteq> set (columns product_dim)
        \<and> list_all four_digit_year (the_col performance_df ''year'')
        \<and> list_all calendar_month (the_col performance_df ''month'')
        \<longrightarrow> (\<exists>out. create_performance_fact performance_df product_dim date_dim = Inr out))"
proof (intro conjI allI impI)
  fix out years months i y m
  assume h: "create_performance_fact performance_df product_dim date_dim = Inr out
        \<and> get_col performance_df ''year'' = Inr years
        \<and> get_col performance_df ''month'' = Inr months
        \<and> i < nrows performance_df \<and> years ! i = IntC y \<and> months ! i = IntC m
        \<and> 1000 \<le> y \<and> y \<le> 9999 \<and> 1 \<le> m \<and> m \<le> 12"
  then have ly: "length years = nrows performance_df" and lm: "length months = nrows performance_df"
    using wf_get_col_length [OF assms] by blast+
  from h create_performance_fact_Inr [of performance_df product_dim date_dim out]
  obtain dk where a: "astype_int (map (\<lambda>(y, m). StrC (year_month_key y m)) (zip years months)) = Inr dk"
    and g: "get_col out ''date_key'' = Inr dk"
    by auto
  have i: "i < length (map (\<lambda>(y, m). StrC (year_month_key y m)) (zip years months))"
    using h ly lm by simp
  have "astype_int_cell (map (\<lambda>(y, m). StrC (year_month_key y m)) (zip years months) ! i)
          = Inr (dk ! i)"
    using traverse_nth [OF a [unfolded astype_int_def] i] .
  moreover have "map (\<lambda>(y, m). StrC (year_month_key y m)) (zip years months) ! i
      = StrC (year_month_key (IntC y) (IntC m))"
    using h ly lm by simp
  moreover have "four_digit_year (IntC y)" "calendar_month (IntC m)"
    using h by (simp_all add: four_digit_year_def calendar_month_def)
  ultimately have "dk ! i = IntC (y * 10000 + m * 100 + 1)"
    using astype_int_year_month [of "IntC y" "IntC m"] by (simp add: the_int_def)
  with g show "\<exists>dk. get_col out ''date_key'' = Inr dk \<and> dk ! i = IntC (y * 10000 + m * 100 + 1)"
    by blast
next
  let ?years = "the_col performance_df ''year''" and ?months = "the_col performance_df ''month''"
  let ?pids = "the_col performance_df ''product_id''"
  assume h: "set [''year'', ''month'', ''product_id'', ''energy_consumption_kwh'', ''failure_rate'',
               ''customer_satisfaction'', ''return_rate'', ''warranty_claims'']
            \<subseteq> set (columns performance_df)
        \<and> set [''product_id'', ''product_key''] \<subseteq> set (columns product_dim)
        \<and> list_all four_digit_year ?years \<and> list_all calendar_month ?months"
  then have y: "get_col performance_df ''year'' = Inr ?years"
    and m: "get_col performance_df ''month'' = Inr ?months"
    and p: "get_col performance_df ''product_id'' = Inr ?pids"
    and di: "get_col product_dim ''product_id'' = Inr (the_col product_dim ''product_id'')"
    and dk: "get_col product_dim ''product_key'' = Inr (the_col product_dim ''product_key'')"
    by (simp_all add: get_col_the_col)
  note l = wf_get_col_length [OF assms y] wf_get_col_length [OF assms m] wf_get_col_length [OF assms p]
  have "astype_int (map (\<lambda>(y, m). StrC (year_month_key y m)) (zip ?years ?months))
      = Inr (map (\<lambda>(y, m). IntC (the_int y * 10000 + the_int m * 100 + 1)) (zip ?years ?months))"
    unfolding astype_int_def traverse_Inr_iff
  proof (intro conjI allI impI)
    fix i assume "i < length (map (\<lambda>(y, m). StrC (year_month_key y m)) (zip ?years ?months))"
    then have i: "i < length ?years" "i < length ?months" by simp_all
    then have "four_digit_year (?years ! i)" "calendar_month (?months ! i)"
      using h by (simp_all add: list_all_length)
    then show "astype_int_cell (map (\<lambda>(y, m). StrC (year_month_key y m)) (zip ?years ?months) ! i)
        = Inr (map (\<lambda>(y, m). IntC (the_int y * 10000 + the_int m * 100 + 1)) (zip ?years ?months) ! i)"
      using i by (simp add: astype_int_year_month)
  qed simp
  moreover have "set performance_fact_columns - {''date_key'', ''product_key''}
           \<subseteq> set (columns performance_df)"
    using h by (auto simp: performance_fact_columns_def)
  ultimately show "\<exists>out. create_performance_fact performance_df product_dim date_dim = Inr out"
    using create_performance_fact_ok [OF y m _ l(1,2) di dk p l(3)] by blast
qed

theorem performance_date_key_first_of_month_witness:
  "\<exists>out dk. create_performance_fact example_performance example_product_dim \<lparr>nrows = 0, cols = []\<rparr>
        = Inr out
     \<and> get_col out ''date_key'' = Inr dk \<and> dk ! 0 = IntC 20220301"
proof -
  have w: "wf_df example_performance"
    by (simp add: wf_df_def example_performance_def columns_def)
  note t = performance_date_key_first_of_month
    [OF w, of example_product_dim "\<lparr>nrows = 0, cols = []\<rparr>"]
  have "\<exists>out. create_performance_fact example_performance example_product_dim
      \<lparr>nrows = 0, cols = []\<rparr> = Inr out"
    by (rule t [THEN conjunct2, rule_format])
      (simp add: example_performance_def example_product_dim_def columns_def the_col_def
        four_digit_year_def calendar_month_def)
  then obtain out where o: "create_performance_fact example_performance example_product_dim
      \<lparr>nrows = 0, cols = []\<rparr> = Inr out" ..
  have g: "get_col example_performance ''year'' = Inr [IntC 2022, IntC 2023]"
    "get_col example_performance ''month'' = Inr [IntC 3, IntC 12]"
    "nrows example_performance = 2"
    by (simp_all add: get_col_def example_performance_def)
  have "\<exists>dk. get_col out ''date_key'' = Inr dk \<and> dk ! 0 = IntC (2022 * 10000 + 3 * 100 + 1)"
    by (rule t [THEN conjunct1, rule_format,
          of out "[IntC 2022, IntC 2023]" "[IntC 3, IntC 12]" 0 2022 3])
      (simp add: o g)
  with o show ?thesis by auto
qed

lemma sorted_wrt_irrefl_distinct: "(\<And>a. \<not> R a a) \<Longrightarrow> sorted_wrt R xs \<Longrightarrow> distinct xs"
  by (induction xs) auto

lemma sorted_wrt_less_distinct: "sorted_wrt date_less ds \<Longrightarrow> distinct ds"
  by (rule sorted_wrt_irrefl_distinct [of date_less]) (simp_all add: date_less_irrefl)

text \<open>
  Claim C6. The date dimension is built without error and has one row for each calendar
  day from 2022-01-01 to 2023-12-31 and no other row, 730 in all, in calendar order;
  \<open>date_id\<close> is 1, 2, ..., 730 down the rows; \<open>date_key\<close> is the number \<^verbatim>\<open>YYYYMMDD\<close>
  of the row's date, has eight digits, and of any two rows the one with the earlier date
  has the smaller \<open>date_key\<close>, so that no two rows share one.
\<close>

theorem date_dimension_keys_follow_calendar:
  "\<exists>dd ds. create_date_dimension = Inr dd
     \<and> ds = date_range start_date end_date
     \<and> get_col dd ''date'' = Inr (map DateC ds)
     \<and> set ds = {d. valid_date d \<and> date_le start_date d \<and> date_le d end_date}
     \<and> distinct ds
     \<and> sorted_wrt date_less ds
     \<and> nrows dd = length ds \<and> length ds = 730
     \<and> get_col dd ''date_id'' = Inr (map IntC [1 .. 730])
     \<and> get_col dd ''date_key'' = Inr (map (\<lambda>d. IntC (date_key_of d)) ds)
     \<and> (\<forall>d\<in>set ds. 10000000 \<le> date_key_of d \<and> date_key_of d \<le> 99999999)
     \<and> (\<forall>i j. i < length ds \<and> j < length ds \<and> date_less (ds ! i) (ds ! j)
            \<longrightarrow> date_key_of (ds ! i) < date_key_of (ds ! j))
     \<and> distinct (map date_key_of ds)"
proof -
  let ?ds = "date_range start_date end_date"
  let ?dd = "\<lparr>nrows = length ?ds,
            cols = [(''date_id'', map IntC [1 .. int (length ?ds)]),
                    (''date'', map DateC ?ds),
                    (''day'', map (\<lambda>d. IntC (day d)) ?ds),
                    (''month'', map (\<lambda>d. IntC (month d)) ?ds),
                    (''quarter'', map (\<lambda>d. IntC (quarter d)) ?ds),
                    (''year'', map (\<lambda>d. IntC (year d)) ?ds),
                    (''day_of_week'', map (\<lambda>d. IntC (dayofweek d)) ?ds),
                    (''day_name'', map (\<lambda>d. StrC (day_name d)) ?ds),
                    (''month_name'', map (\<lambda>d. StrC (month_name d)) ?ds),
                    (''is_weekend'', map (\<lambda>d. BoolC (dayofweek d = 5 \<or> dayofweek d = 6)) ?ds),
                    (''date_key'', map (\<lambda>d. IntC (date_key_of d)) ?ds)]\<rparr>"
  have c: "create_date_dimension = Inr ?dd"
    by (simp add: create_date_dimension_eq Let_def)
  have s: "sorted_wrt date_less ?ds"
    by (rule date_range_sorted [OF valid_start_date])
  have len: "length ?ds = 730" by (rule date_range_length)
  have g: "get_col ?dd ''date'' = Inr (map DateC ?ds)"
    "get_col ?dd ''date_id'' = Inr (map IntC [1 .. 730])"
    "get_col ?dd ''date_key'' = Inr (map (\<lambda>d. IntC (date_key_of d)) ?ds)"
    by (simp_all add: get_col_def len)
  have digits: "\<forall>d\<in>set ?ds. 10000000 \<le> date_key_of d \<and> date_key_of d \<le> 99999999"
  proof
    fix d assume d: "d \<in> set ?ds"
    have "1 \<le> month d" "month d \<le> 12" "1 \<le> day d" "day d \<le> 31"
      using calendar_days(1) [OF d] days_in_month_bounds(2) [of "year d" "month d"]
      by (auto simp: valid_date_def)
    then show "10000000 \<le> date_key_of d \<and> date_key_of d \<le> 99999999"
      using calendar_days(2,3) [OF d] by (simp add: date_key_of_def)
  qed
  have mono: "\<forall>i j. i < length ?ds \<and> j < length ?ds \<and> date_less (?ds ! i) (?ds ! j)
            \<longrightarrow> date_key_of (?ds ! i) < date_key_of (?ds ! j)"
    using calendar_days(1) date_key_mono by (metis nth_mem)
  have "sorted_wrt (\<lambda>a b. date_key_of a < date_key_of b) ?ds"
    using s calendar_days(1) date_key_mono
    by (metis (mono_tags, lifting) sorted_wrt_mono_rel)
  then have "sorted_wrt (<) (map date_key_of ?ds)"
    by (simp add: sorted_wrt_map)
  then have dk: "distinct (map date_key_of ?ds)"
    by (rule sorted_wrt_irrefl_distinct [of "(<)", rotated]) simp
  show ?thesis
    using c g s sorted_wrt_less_distinct [OF s] date_range_set [OF valid_start_date] len
      digits mono dk
    by (intro exI [of _ ?dd] exI [of _ ?ds]) simp
qed

theorem date_dimension_keys_follow_calendar_witness:
  "date_range start_date end_date ! 0 = mk_date 2022 1 1
   \<and> date_range start_date end_date ! 729 = mk_date 2023 12 31
   \<and> date_key_of (date_range start_date end_date ! 0) = 20220101
   \<and> date_key_of (date_range start_date end_date ! 729) = 20231231
   \<and> date_key_of (date_range start_date end_date ! 0)
       < date_key_of (date_range start_date end_date ! 729)"
proof -
  have first: "date_range start_date end_date ! 0 = mk_date 2022 1 1"
    and last: "date_range start_date end_date ! 729 = mk_date 2023 12 31"
    by code_simp+
  from date_dimension_keys_follow_calendar obtain dd ds where
    ds: "ds = date_range start_date end_date" and len: "length ds = 730"
    and mono: "\<forall>i j. i < length ds \<and> j < length ds \<and> date_less (ds ! i) (ds ! j)
            \<longrightarrow> date_key_of (ds ! i) < date_key_of (ds ! j)"
    by blast
  have "date_less (ds ! 0) (ds ! 729)"
    by (simp add: ds first last date_less_def mk_date_def)
  then have "date_key_of (ds ! 0) < date_key_of (ds ! 729)"
    using mono len by simp
  then show ?thesis
    using first last by (simp add: ds date_key_of_def mk_date_def)
qed

text \<open>
  Claim C7. What a run of \<^verbatim>\<open>main\<close> leaves in its six output files, or the error it
  stops with, depends only on the five input files: two runs on file systems that agree
  on the input files give the same six files (or the same error), whatever else the file
  systems hold, output files of an earlier run included. A second run after a first one
  reads the same inputs, writes the same six files and leaves the file system as the
  first run left it.
\<close>

theorem main_is_deterministic:
  "((\<forall>p\<in>set input_paths. fs p = fs' p) \<longrightarrow> artifacts (main fs) = artifacts (main fs'))
   \<and> (\<forall>out. main fs = Inr out
        \<longrightarrow> main out = Inr out \<and> artifacts (main out) = artifacts (main fs))"
proof (rule conjI; intro allI impI)
  assume "\<forall>p\<in>set input_paths. fs p = fs' p"
  then have l: "load_processed_data input_dir fs = load_processed_data input_dir fs'"
    by (rule load_processed_data_cong)
  show "artifacts (main fs) = artifacts (main fs')"
  proof (cases "load_processed_data input_dir fs'")
    case (Inl e)
    then show ?thesis by (simp add: main_def l artifacts_def)
  next
    case i: (Inr inputs)
    show ?thesis
    proof (cases "build_star_schema inputs")
      case (Inl e)
      then show ?thesis by (simp add: main_def l i artifacts_def)
    next
      case (Inr tables)
      then show ?thesis
        using saved_artifacts [of tables output_dir fs fs']
        by (simp add: main_def l i artifacts_def)
    qed
  qed
next
  fix out assume m: "main fs = Inr out"
  then obtain inputs tables where i: "load_processed_data input_dir fs = Inr inputs"
    and b: "build_star_schema inputs = Inr tables"
    and s: "out = save_star_schema tables output_dir fs"
    by (auto simp: main_def and_then_eq_Inr)
  have "main out = Inr out"
    by (simp add: main_def s load_after_save i b save_twice)
  then show "main out = Inr out \<and> artifacts (main out) = artifacts (main fs)"
    by (simp add: m)
qed

theorem main_is_deterministic_witness:
  "artifacts (main example_fs)
     = artifacts (main (example_fs(output_dir @ ''/dim_date.csv'' \<mapsto> csv_of example_stores True)))
   \<and> (\<exists>out. main example_fs = Inr out \<and> main out = Inr out
         \<and> artifacts (main out) = artifacts (main example_fs))"
proof -
  note t = main_is_deterministic [of example_fs
      "example_fs(output_dir @ ''/dim_date.csv'' \<mapsto> csv_of example_stores True)"]
  have "\<forall>p\<in>set input_paths.
      example_fs p = (example_fs(output_dir @ ''/dim_date.csv'' \<mapsto> csv_of example_stores True)) p"
    by (simp add: input_paths_def input_dir_def output_dir_def)
  with t have "artifacts (main example_fs)
     = artifacts (main (example_fs(output_dir @ ''/dim_date.csv'' \<mapsto> csv_of example_stores True)))"
    by blast
  moreover from example_main obtain out where "main example_fs = Inr out" ..
  with t have "\<exists>out. main example_fs = Inr out \<and> main out = Inr out
         \<and> artifacts (main out) = artifacts (main example_fs)"
    by blast
  ultimately show ?thesis by blast
qed

text \<open>
  Claim C8. The entity dimension builds (products, customers, stores) remove and merge
  nothing: on a table that has the columns the build selects, the dimension has as many
  rows as the input, every selected column, the natural key among them, is the input
  column unchanged, and the surrogate keys of any two different rows differ. So two
  input rows with the same natural key are both in the dimension, with the same natural
  key and different surrogate keys.
\<close>

theorem entity_dimension_keeps_duplicates:
  "(set product_columns \<subseteq> set (columns products_df) \<longrightarrow>
      (\<exists>dim keys. create_product_dimension products_df = Inr dim
         \<and> nrows dim = nrows products_df
         \<and> (\<forall>c\<in>set product_columns. get_col dim c = get_col products_df c)
         \<and> get_col dim ''product_id'' = get_col products_df ''product_id''
         \<and> get_col dim ''product_key'' = Inr keys \<and> length keys = nrows products_df
         \<and> (\<forall>i j. i < j \<and> j < nrows products_df \<longrightarrow> keys ! i \<noteq> keys ! j)))
   \<and> (set customer_columns \<subseteq> set (columns customers_df) \<longrightarrow>
      (\<exists>dim keys. create_customer_dimension customers_df = Inr dim
         \<and> nrows dim = nrows customers_df
         \<and> (\<forall>c\<in>set customer_columns. get_col dim c = get_col customers_df c)
         \<and> get_col dim ''customer_id'' = get_col customers_df ''customer_id''
         \<and> get_col dim ''customer_key'' = Inr keys \<and> length keys = nrows customers_df
         \<and> (\<forall>i j. i < j \<and> j < nrows customers_df \<longrightarrow> keys ! i \<noteq> keys ! j)))
   \<and> (set store_columns \<subseteq> set (columns stores_df) \<longrightarrow>
      (\<exists>dim keys. create_store_dimension stores_df = Inr dim
         \<and> nrows dim = nrows stores_df
         \<and> (\<forall>c\<in>set store_columns. get_col dim c = get_col stores_df c)
         \<and> get_col dim ''store_id'' = get_col stores_df ''store_id''
         \<and> get_col dim ''store_key'' = Inr keys \<and> length keys = nrows stores_df
         \<and> (\<forall>i j. i < j \<and> j < nrows stores_df \<longrightarrow> keys ! i \<noteq> keys ! j)))"
proof -
  have k: "length (map IntC [1 .. int n]) = n
      \<and> (\<forall>i j. i < j \<and> j < n \<longrightarrow> map IntC [1 .. int n] ! i \<noteq> map IntC [1 .. int n] ! j)" for n
    using distinct_key_range [of "int n"] by (auto simp: distinct_conv_nth)
  have i: "''product_id'' \<in> set product_columns" "''customer_id'' \<in> set customer_columns"
    "''store_id'' \<in> set store_columns"
    by (simp_all add: product_columns_def customer_columns_def store_columns_def)
  show ?thesis
  proof (intro conjI impI)
    assume h: "set product_columns \<subseteq> set (columns products_df)"
    note f = keyed_frame [OF h product_key_fresh refl]
    show "\<exists>dim keys. create_product_dimension products_df = Inr dim
         \<and> nrows dim = nrows products_df
         \<and> (\<forall>c\<in>set product_columns. get_col dim c = get_col products_df c)
         \<and> get_col dim ''product_id'' = get_col products_df ''product_id''
         \<and> get_col dim ''product_key'' = Inr keys \<and> length keys = nrows products_df
         \<and> (\<forall>i j. i < j \<and> j < nrows products_df \<longrightarrow> keys ! i \<noteq> keys ! j)"
      using create_product_dimension_eq [OF h] f(1,3,4) f(4) [rule_format, OF i(1)]
        k [of "nrows products_df"] by blast
  next
    assume h: "set customer_columns \<subseteq> set (columns customers_df)"
    note f = keyed_frame [OF h customer_key_fresh refl]
    show "\<exists>dim keys. create_customer_dimension customers_df = Inr dim
         \<and> nrows dim = nrows customers_df
         \<and> (\<forall>c\<in>set customer_columns. get_col dim c = get_col customers_df c)
         \<and> get_col dim ''customer_id'' = get_col customers_df ''customer_id''
         \<and> get_col dim ''customer_key'' = Inr keys \<and> length keys = nrows customers_df
         \<and> (\<forall>i j. i < j \<and> j < nrows customers_df \<longrightarrow> keys ! i \<noteq> keys ! j)"
      using create_customer_dimension_eq [OF h] f(1,3,4) f(4) [rule_format, OF i(2)]
        k [of "nrows customers_df"] by blast
  next
    assume h: "set store_columns \<subseteq> set (columns stores_df)"
    note f = keyed_frame [OF h store_key_fresh refl]
    show "\<exists>dim keys. create_store_dimension stores_df = Inr dim
         \<and> nrows dim = nrows stores_df
         \<and> (\<forall>c\<in>set store_columns. get_col dim c = get_col stores_df c)
         \<and> get_col dim ''store_id'' = get_col stores_df ''store_id''
         \<and> get_col dim ''store_key'' = Inr keys \<and> length keys = nrows stores_df
         \<and> (\<forall>i j. i < j \<and> j < nrows stores_df \<longrightarrow> keys ! i \<noteq> keys ! j)"
      using create_store_dimension_eq [OF h] f(1,3,4) f(4) [rule_format, OF i(3)]
        k [of "nrows stores_df"] by blast
  qed
qed

theorem entity_dimension_keeps_duplicates_witness:
  "get_col example_duplicate_products ''product_id''
     = Inr [StrC ''P2'', StrC ''P1'', StrC ''P2'']
   \<and> (\<exists>dim keys. create_product_dimension example_duplicate_products = Inr dim
         \<and> nrows dim = 3
         \<and> get_col dim ''product_id'' = Inr [StrC ''P2'', StrC ''P1'', StrC ''P2'']
         \<and> get_col dim ''product_key'' = Inr keys \<and> length keys = 3
         \<and> keys ! 0 \<noteq> keys ! 2)"
proof -
  have g: "get_col example_duplicate_products ''product_id''
     = Inr [StrC ''P2'', StrC ''P1'', StrC ''P2'']" "nrows example_duplicate_products = 3"
    by (simp_all add: get_col_def example_duplicate_products_def)
  from entity_dimension_keeps_duplicates [THEN conjunct1, rule_format,
      OF example_duplicate_products_columns]
  obtain dim keys where d: "create_product_dimension example_duplicate_products = Inr dim"
    "nrows dim = nrows example_duplicate_products"
    "get_col dim ''product_id'' = get_col example_duplicate_products ''product_id''"
    "get_col dim ''product_key'' = Inr keys" "length keys = nrows example_duplicate_products"
    and r: "\<forall>i j. i < j \<and> j < nrows example_duplicate_products \<longrightarrow> keys ! i \<noteq> keys ! j"
    by blast
  from r [rule_format, of 0 2] have "keys ! 0 \<noteq> keys ! 2" by (simp add: g(2))
  then show ?thesis using d g by auto
qed

text \<open>
  Claim C9. The six tables of a build, written by \<^verbatim>\<open>save_star_schema\<close> to a directory
  and read back from it by the loader of the dashboard, are read without error, and
  each table read back has the row count and the column names (in the same order) of the
  table that was written. In particular, after a run of \<^verbatim>\<open>main\<close> the loader, reading
  from its own directory \<^verbatim>\<open>DATA_DIR\<close>, finds the six tables of that run. (Files are
  compared as records of fields; how a field is quoted in the text of the file is not
  part of the model.)
\<close>

theorem star_schema_round_trip:
  "(\<forall>tables. build_star_schema inputs = Inr tables
      \<longrightarrow> (\<exists>loaded. load_star_schema_data dir (save_star_schema tables dir fs) = Inr loaded
             \<and> shapes loaded = shapes tables))
   \<and> (\<forall>fs'. main fs = Inr fs'
      \<longrightarrow> (\<exists>inputs tables loaded.
               load_processed_data input_dir fs = Inr inputs
             \<and> build_star_schema inputs = Inr tables
             \<and> load_star_schema_data DATA_DIR fs' = Inr loaded
             \<and> shapes loaded = shapes tables))"
proof (intro conjI allI impI)
  fix tables assume "build_star_schema inputs = Inr tables"
  then show "\<exists>loaded. load_star_schema_data dir (save_star_schema tables dir fs) = Inr loaded
             \<and> shapes loaded = shapes tables"
    by (rule built_loads)
next
  fix fs' assume "main fs = Inr fs'"
  then obtain inputs tables where i: "load_processed_data input_dir fs = Inr inputs"
    and b: "build_star_schema inputs = Inr tables"
    and s: "fs' = save_star_schema tables output_dir fs"
    by (auto simp: main_def and_then_eq_Inr)
  have d: "DATA_DIR = output_dir" by (simp add: DATA_DIR_def output_dir_def)
  from built_loads [OF b, of output_dir fs] obtain loaded where
    "load_star_schema_data DATA_DIR fs' = Inr loaded" "shapes loaded = shapes tables"
    unfolding d s by blast
  with i b show "\<exists>inputs tables loaded.
               load_processed_data input_dir fs = Inr inputs
             \<and> build_star_schema inputs = Inr tables
             \<and> load_star_schema_data DATA_DIR fs' = Inr loaded
             \<and> shapes loaded = shapes tables"
    by blast
qed

theorem star_schema_round_trip_witness:
  "\<exists>out inputs tables loaded.
     main example_fs = Inr out
   \<and> load_processed_data input_dir example_fs = Inr inputs
   \<and> build_star_schema inputs = Inr tables
   \<and> load_star_schema_data DATA_DIR out = Inr loaded
   \<and> shapes loaded = shapes tables
   \<and> map fst (shapes loaded) = [730, 3, 2, 2, 2, 2]"
proof -
  from example_main obtain out where o: "main example_fs = Inr out" ..
  from star_schema_round_trip [THEN conjunct2, rule_format, OF o]
  obtain inputs tables loaded where
    r: "load_processed_data input_dir example_fs = Inr inputs"
    "build_star_schema inputs = Inr tables"
    "load_star_schema_data DATA_DIR out = Inr loaded" "shapes loaded = shapes tables"
    by blast
  have "inputs = (example_products, example_customers, example_stores, example_sales,
      example_performance)"
    using r(1) by (simp add: example_loaded)
  then have "map fst (shapes tables) = [730, 3, 2, 2, 2, 2]"
    using built_shapes [of example_products example_customers example_stores example_sales
        example_performance tables] r(2)
    by (simp add: example_products_def example_customers_def example_stores_def
        example_sales_def example_performance_def)
  then have h: "map fst (shapes loaded) = [730, 3, 2, 2, 2, 2]"
    by (simp add: r(4))
  show ?thesis
    by (intro exI conjI) (rule o r h)+
qed

text \<open>
  Claim C10. The sales fact build and the performance fact build look a natural key up
  in a dictionary filled from the dimension's rows in order, a later row replacing an
  earlier one with the same natural key. So in the table either build returns, a row
  whose natural key occurs in the dimension, for the last time in row \<open>j\<close>, has the
  surrogate key of row \<open>j\<close>, however many earlier rows hold the same natural key. With a
  product dimension whose rows 1 and 3 both hold P2, a row of product P2 gets key 3, not
  key 1.
\<close>

theorem duplicate_natural_key_resolves_to_last:
  assumes "wf_df product_dim" and "wf_df customer_dim" and "wf_df store_dim"
  shows
    "(\<forall>out i. create_sales_fact sales_df product_dim customer_dim store_dim date_dim = Inr out
         \<and> i < nrows sales_df
       \<longrightarrow> (\<exists>pk ck sk.
              get_col out ''product_key'' = Inr pk \<and> get_col out ''customer_key'' = Inr ck
            \<and> get_col out ''store_key'' = Inr sk
            \<and> (\<forall>j. last_occurrence (the_col sales_df ''product_id'' ! i)
                       (the_col product_dim ''product_id'') j
                   \<longrightarrow> pk ! i = the_col product_dim ''product_key'' ! j)
            \<and> (\<forall>j. last_occurrence (the_col sales_df ''customer_id'' ! i)
                       (the_col customer_dim ''customer_id'') j
                   \<longrightarrow> ck ! i = the_col customer_dim ''customer_key'' ! j)
            \<and> (\<forall>j. last_occurrence (the_col sales_df ''store_id'' ! i)
                       (the_col store_dim ''store_id'') j
                   \<longrightarrow> sk ! i = the_col store_dim ''store_key'' ! j)))
     \<and> (\<forall>out i. create_performance_fact performance_df product_dim date_dim = Inr out
         \<and> i < nrows performance_df
       \<longrightarrow> (\<exists>pk. get_col out ''product_key'' = Inr pk
            \<and> (\<forall>j. last_occurrence (the_col performance_df ''product_id'' ! i)
                       (the_col product_dim ''product_id'') j
                   \<longrightarrow> pk ! i = the_col product_dim ''product_key'' ! j)))"
proof (intro conjI allI impI)
  fix out i
  assume h: "create_sales_fact sales_df product_dim customer_dim store_dim date_dim = Inr out
         \<and> i < nrows sales_df"
  from create_sales_fact_Inr [OF h [THEN conjunct1]]
  obtain pi pk ci ck si sk pids cids sids where
    g: "get_col product_dim ''product_id'' = Inr pi" "get_col product_dim ''product_key'' = Inr pk"
       "get_col customer_dim ''customer_id'' = Inr ci" "get_col customer_dim ''customer_key'' = Inr ck"
       "get_col store_dim ''store_id'' = Inr si" "get_col store_dim ''store_key'' = Inr sk"
       "get_col sales_df ''product_id'' = Inr pids" "get_col sales_df ''customer_id'' = Inr cids"
       "get_col sales_df ''store_id'' = Inr sids"
    and p: "get_col out ''product_key'' = Inr (series_map (dict_zip pi pk) pids)"
    and c: "get_col out ''customer_key'' = Inr (series_map (dict_zip ci ck) cids)"
    and t: "get_col out ''store_key'' = Inr (series_map (dict_zip si sk) sids)"
    and l: "length pids = nrows sales_df" "length cids = nrows sales_df"
      "length sids = nrows sales_df"
    by blast
  note e = g [THEN get_col_Inr_the_col]
  have i: "i < length pids" "i < length cids" "i < length sids" using h l by simp_all
  have "\<forall>j. last_occurrence (pids ! i) pi j \<longrightarrow> series_map (dict_zip pi pk) pids ! i = pk ! j"
    using resolve_last [OF assms(1) g(1,2) i(1)] by blast
  moreover have "\<forall>j. last_occurrence (cids ! i) ci j \<longrightarrow> series_map (dict_zip ci ck) cids ! i = ck ! j"
    using resolve_last [OF assms(2) g(3,4) i(2)] by blast
  moreover have "\<forall>j. last_occurrence (sids ! i) si j \<longrightarrow> series_map (dict_zip si sk) sids ! i = sk ! j"
    using resolve_last [OF assms(3) g(5,6) i(3)] by blast
  ultimately show "\<exists>pk ck sk.
              get_col out ''product_key'' = Inr pk \<and> get_col out ''customer_key'' = Inr ck
            \<and> get_col out ''store_key'' = Inr sk
            \<and> (\<forall>j. last_occurrence (the_col sales_df ''product_id'' ! i)
                       (the_col product_dim ''product_id'') j
                   \<longrightarrow> pk ! i = the_col product_dim ''product_key'' ! j)
            \<and> (\<forall>j. last_occurrence (the_col sales_df ''customer_id'' ! i)
                       (the_col customer_dim ''customer_id'') j
                   \<longrightarrow> ck ! i = the_col customer_dim ''customer_key'' ! j)
            \<and> (\<forall>j. last_occurrence (the_col sales_df ''store_id'' ! i)
                       (the_col store_dim ''store_id'') j
                   \<longrightarrow> sk ! i = the_col store_dim ''store_key'' ! j)"
    unfolding e using p c t by blast
next
  fix out i
  assume h: "create_performance_fact performance_df product_dim date_dim = Inr out
         \<and> i < nrows performance_df"
  from create_performance_fact_Inr [OF h [THEN conjunct1]]
  obtain ids keys pids where
    g: "get_col product_dim ''product_id'' = Inr ids" "get_col product_dim ''product_key'' = Inr keys"
       "get_col performance_df ''product_id'' = Inr pids"
    and p: "get_col out ''product_key'' = Inr (series_map (dict_zip ids keys) pids)"
    and l: "length pids = nrows performance_df"
    by blast
  note e = g [THEN get_col_Inr_the_col]
  have i: "i < length pids" using h l by simp
  have "\<forall>j. last_occurrence (pids ! i) ids j
      \<longrightarrow> series_map (dict_zip ids keys) pids ! i = keys ! j"
    using resolve_last [OF assms(1) g(1,2) i] by blast
  then show "\<exists>pk. get_col out ''product_key'' = Inr pk
            \<and> (\<forall>j. last_occurrence (the_col performance_df ''product_id'' ! i)
                       (the_col product_dim ''product_id'') j
                   \<longrightarrow> pk ! i = the_col product_dim ''product_key'' ! j)"
    unfolding e using p by blast
qed

theorem duplicate_natural_key_resolves_to_last_witness:
  "create_product_dimension example_duplicate_products = Inr example_duplicate_dim
   \<and> the_col example_duplicate_dim ''product_id'' = [StrC ''P2'', StrC ''P1'', StrC ''P2'']
   \<and> the_col example_duplicate_dim ''product_key'' = [IntC 1, IntC 2, IntC 3]
   \<and> the_col example_sales ''product_id'' ! 0 = StrC ''P2''
   \<and> the_col example_performance ''product_id'' ! 0 = StrC ''P2''
   \<and> (\<exists>out pk. create_sales_fact example_sales example_duplicate_dim example_customer_dim
                   example_store_dim no_table = Inr out
         \<and> get_col out ''product_key'' = Inr pk \<and> pk ! 0 = IntC 3)
   \<and> (\<exists>out pk. create_performance_fact example_performance example_duplicate_dim no_table
                   = Inr out
         \<and> get_col out ''product_key'' = Inr pk \<and> pk ! 0 = IntC 3)"
proof -
  note t = duplicate_natural_key_resolves_to_last [OF example_dims_wf(4,2,3),
      where sales_df = example_sales and date_dim = no_table
        and performance_df = example_performance]
  have d: "the_col example_duplicate_dim ''product_id'' = [StrC ''P2'', StrC ''P1'', StrC ''P2'']"
    "the_col example_duplicate_dim ''product_key'' = [IntC 1, IntC 2, IntC 3]"
    "the_col example_sales ''product_id'' ! 0 = StrC ''P2''" "nrows example_sales = 2"
    "the_col example_performance ''product_id'' ! 0 = StrC ''P2''" "nrows example_performance = 2"
    by (simp_all add: the_col_def example_duplicate_dim_def example_sales_def
        example_performance_def)
  from create_sales_fact_ok [OF example_sales_duplicate_ok] obtain out where
    o: "create_sales_fact example_sales example_duplicate_dim example_customer_dim
          example_store_dim no_table = Inr out" by blast
  have "set [''product_id'', ''product_key''] \<subseteq> set (columns example_duplicate_dim)"
    by (simp add: example_duplicate_dim_def columns_def)
  from example_performance_built [OF this] obtain out' where
    o': "create_performance_fact example_performance example_duplicate_dim no_table = Inr out'"
    by blast
  have l: "last_occurrence (StrC ''P2'') (the_col example_duplicate_dim ''product_id'') 2"
    by (simp add: d last_occurrence_def)
  from t [THEN conjunct1, rule_format, of out 0] o d(3,4) l
  obtain pk where pk: "get_col out ''product_key'' = Inr pk"
    "pk ! 0 = the_col example_duplicate_dim ''product_key'' ! 2"
    by auto
  from t [THEN conjunct2, rule_format, of out' 0] o' d(5,6) l
  obtain pk' where pk': "get_col out' ''product_key'' = Inr pk'"
    "pk' ! 0 = the_col example_duplicate_dim ''product_key'' ! 2"
    by auto
  have "\<exists>out pk. create_sales_fact example_sales example_duplicate_dim example_customer_dim
                   example_store_dim no_table = Inr out
         \<and> get_col out ''product_key'' = Inr pk \<and> pk ! 0 = IntC 3"
    using o pk d(2) by simp
  moreover have "\<exists>out pk. create_performance_fact example_performance example_duplicate_dim
                   no_table = Inr out
         \<and> get_col out ''product_key'' = Inr pk \<and> pk ! 0 = IntC 3"
    using o' pk' d(2) by simp
  ultimately show ?thesis using d example_duplicate_dim_built by simp
qed

end
